theory Spec2Isabelle
  imports Complex_Main
begin

section \<open>Snooker simulator: a shallow embedding of sketch.js\<close>

text \<open>
  JavaScript numbers are modelled as exact reals, so every statement below is about the
  arithmetic the program writes down, not about IEEE rounding. A JavaScript point object
  \<^verbatim>\<open>{x, y}\<close> is a pair \<open>(x, y)\<close>. The model covers the table geometry, the creation
  and layout of balls, potting, the shot cycle and the trajectory predictor. Drawing, the
  HUD, the theme, mouse and keyboard handlers, trails and confetti particles are left out,
  and so is the Matter engine itself: what it does to the bodies is a parameter.
\<close>

subsection \<open>Table geometry\<close>

text \<open>The constant object \<^verbatim>\<open>UI_LAYOUT\<close>.\<close>

definition topBarH :: real where "topBarH = 40"
definition bottomBarH :: real where "bottomBarH = 32"
definition sidePad :: real where "sidePad = 20"
definition panelW :: real where "panelW = 240"
definition panelH :: real where "panelH = 220"
definition panelGap :: real where "panelGap = 16"

text \<open>The object \<^verbatim>\<open>table.surface\<close>: fields \<^verbatim>\<open>x, y, w, h\<close>.\<close>

record rect =
  rx :: real
  ry :: real
  rw :: real
  rh :: real

text \<open>The object \<^verbatim>\<open>table.spots\<close>.\<close>

record spots =
  brown :: "real \<times> real"
  green :: "real \<times> real"
  yellow :: "real \<times> real"
  blue :: "real \<times> real"
  pink :: "real \<times> real"
  black :: "real \<times> real"

text \<open>
  The object \<^verbatim>\<open>table\<close>. The source's one-letter field names are spelled out:
  \<^verbatim>\<open>_w, _h\<close> are \<open>canvasW, canvasH\<close>; \<^verbatim>\<open>x, y, w, h\<close> are
  \<open>tableX, tableY, tableW, tableH\<close> (the outer rectangle: \<open>tableW\<close> is the table
  length, \<open>tableH\<close> the table width).
\<close>

record table =
  canvasW :: real
  canvasH :: real
  tableX :: real
  tableY :: real
  tableW :: real
  tableH :: real
  rail :: real
  surface :: rect
  ballD :: real
  ballR :: real
  pocketR :: real
  baulkX :: real
  dRadius :: real
  dCenter :: "real \<times> real"
  spots :: spots

text \<open>
  \<^verbatim>\<open>rebuildTableGeometry()\<close>, lines 264-334: a function of the canvas size
  (the p5 globals \<^verbatim>\<open>width\<close> and \<^verbatim>\<open>height\<close>).
\<close>

definition rebuildTableGeometry :: "real \<Rightarrow> real \<Rightarrow> table" where
  "rebuildTableGeometry width height =
    (let reserveRight = panelW + panelGap + sidePad;
         canReserveRight = (width \<ge> 980);
         usableHeight = height - (topBarH + bottomBarH);
         maxWidthFromHeight = usableHeight * 0.86;
         lengthByHeight = maxWidthFromHeight * 2;
         maxLengthFromWidth =
           (if canReserveRight then width - sidePad - reserveRight else width * 0.86);
         tableLength = min maxLengthFromWidth lengthByHeight;
         tableWidth = tableLength / 2;
         x = (if canReserveRight then sidePad else (width - tableLength) / 2);
         y = topBarH + (usableHeight - tableWidth) / 2;
         ballD = tableWidth / 36;
         ballR = ballD / 2;
         pocketD = 1.5 * ballD;
         pocketR = pocketD / 2;
         rail = ballD * 1.6;
         surface = \<lparr> rx = x + rail, ry = y + rail,
                     rw = tableLength - 2 * rail, rh = tableWidth - 2 * rail \<rparr>;
         baulkX = rx surface + rw surface * 0.207;
         dRadius = rh surface * 0.165;
         dCenter = (baulkX, ry surface + rh surface / 2);
         center = (rx surface + rw surface / 2, ry surface + rh surface / 2);
         blackX = rx surface + rw surface * 0.91;
         blueX = fst center;
         pinkX = rx surface + rw surface * 0.75
     in \<lparr> canvasW = width, canvasH = height,
          tableX = x, tableY = y, tableW = tableLength, tableH = tableWidth,
          rail = rail, surface = surface,
          ballD = ballD, ballR = ballR, pocketR = pocketR,
          baulkX = baulkX, dRadius = dRadius, dCenter = dCenter,
          spots = \<lparr> brown = (baulkX, snd center),
                    green = (baulkX, snd center - dRadius),
                    yellow = (baulkX, snd center + dRadius),
                    blue = (blueX, snd center),
                    pink = (pinkX, snd center),
                    black = (blackX, snd center) \<rparr> \<rparr>)"

text \<open>A pocket: \<^verbatim>\<open>{ id, x, y }\<close>.\<close>

record pocket =
  pid :: string
  ppos :: "real \<times> real"

text \<open>\<^verbatim>\<open>buildPocketList()\<close>, lines 336-358.\<close>

definition buildPocketList :: "table \<Rightarrow> pocket list" where
  "buildPocketList t =
    (let s = surface t;
         r = pocketR t;
         inset = r * 0.2;
         tl = (rx s + inset, ry s + inset);
         tm = (rx s + rw s / 2, ry s + inset);
         tr = (rx s + rw s - inset, ry s + inset);
         bl = (rx s + inset, ry s + rh s - inset);
         bm = (rx s + rw s / 2, ry s + rh s - inset);
         br = (rx s + rw s - inset, ry s + rh s - inset)
     in [\<lparr> pid = ''TL'', ppos = tl \<rparr>, \<lparr> pid = ''TM'', ppos = tm \<rparr>,
         \<lparr> pid = ''TR'', ppos = tr \<rparr>, \<lparr> pid = ''BL'', ppos = bl \<rparr>,
         \<lparr> pid = ''BM'', ppos = bm \<rparr>, \<lparr> pid = ''BR'', ppos = br \<rparr>])"

subsection \<open>Balls and the global state\<close>

text \<open>
  A ball's \<^verbatim>\<open>id\<close> is either a name given by the caller (\<^verbatim>\<open>'yellow'\<close>, ...,
  \<^verbatim>\<open>'black'\<close>) or the generated string \<^verbatim>\<open>ball_<n>\<close>, written \<open>Anon n\<close>;
  a generated id is never equal to a given name such as \<^verbatim>\<open>'black'\<close>.
\<close>

datatype ball_id = Named string | Anon int

text \<open>
  A ball object together with its Matter body: \<open>position\<close>, \<open>velocity\<close> and \<open>force\<close>
  are \<^verbatim>\<open>body.position\<close>, \<^verbatim>\<open>body.velocity\<close> and \<^verbatim>\<open>body.force\<close>; \<open>rad\<close> is
  the field \<^verbatim>\<open>r\<close>. The \<^verbatim>\<open>trail\<close> (drawing only) is left out.
\<close>

record ball =
  bid :: ball_id
  colour :: string
  position :: "real \<times> real"
  velocity :: "real \<times> real"
  force :: "real \<times> real"
  rad :: real
  isCue :: bool
  isRed :: bool
  potted :: bool

text \<open>Entries of \<^verbatim>\<open>impactEffects\<close> and \<^verbatim>\<open>pocketEffects\<close>: \<^verbatim>\<open>{ x, y, t, duration }\<close>.\<close>

record effect =
  effPos :: "real \<times> real"
  effT :: nat
  effDuration :: nat

record notice =
  active :: bool
  title :: string
  subtitle :: string
  framesLeft :: int

text \<open>Entries of \<^verbatim>\<open>shotLog\<close>: \<^verbatim>\<open>{ n, outcome, potted }\<close>.\<close>

record shot_entry =
  shotN :: nat
  outcome :: string
  pottedBalls :: "(ball_id \<times> string) list"

text \<open>
  The global variables. Ball objects live in a store: \<open>heap\<close> maps an address to the
  object, and \<open>reds\<close>, \<open>colours\<close> and \<open>cueBall\<close> hold addresses, so that a loop over the
  array \<^verbatim>\<open>all\<close> sees the mutations made through any other reference. A reference is
  null when there is no address or the address is unmapped. \<open>world\<close> is the set of
  addresses of the balls whose body is in the Matter world (cushion bodies are not
  modelled). \<open>rnd\<close> and \<open>rndPos\<close> stand for p5's random generator: the \<open>k\<close>-th call of
  \<^verbatim>\<open>random()\<close> returns \<open>rnd k\<close>, a number the real generator takes from \<open>[0, 1)\<close>.
\<close>

record state =
  heap :: "nat \<Rightarrow> ball option"
  nextAddr :: nat
  world :: "nat set"
  rnd :: "nat \<Rightarrow> real"
  rndPos :: nat
  tbl :: table
  pockets :: "pocket list"
  reds :: "nat list"
  colours :: "nat list"
  cueBall :: "nat option"
  mode :: nat
  aimAngle :: real
  aimPower :: real
  impactEffects :: "effect list"
  pocketEffects :: "effect list"
  gameOver :: bool
  gameOverReason :: string
  notice :: notice
  shotsTaken :: nat
  shotInProgress :: bool
  shotPottedThisShot :: "(ball_id \<times> string) list"
  shotFoulThisShot :: bool
  shotLog :: "shot_entry list"

subsection \<open>p5 helpers\<close>

text \<open>p5's \<^verbatim>\<open>dist(x1, y1, x2, y2)\<close> and \<^verbatim>\<open>constrain(v, lo, hi)\<close>.\<close>

definition dist_p5 :: "real \<Rightarrow> real \<Rightarrow> real \<Rightarrow> real \<Rightarrow> real" where
  "dist_p5 x1 y1 x2 y2 = sqrt ((x2 - x1)\<^sup>2 + (y2 - y1)\<^sup>2)"

definition constrain :: "real \<Rightarrow> real \<Rightarrow> real \<Rightarrow> real" where
  "constrain v lo hi = max (min v hi) lo"

text \<open>
  p5's \<^verbatim>\<open>random()\<close>: \<^verbatim>\<open>random(m)\<close> is \<open>rand * m\<close>; \<^verbatim>\<open>random(lo, hi)\<close> swaps its
  arguments when \<open>lo > hi\<close> and returns \<open>rand * (hi - lo) + lo\<close>.
\<close>

definition random01 :: "state \<Rightarrow> real \<times> state" where
  "random01 s = (rnd s (rndPos s), s\<lparr> rndPos := Suc (rndPos s) \<rparr>)"

definition random1 :: "real \<Rightarrow> state \<Rightarrow> real \<times> state" where
  "random1 m s = (fst (random01 s) * m, snd (random01 s))"

definition random2 :: "real \<Rightarrow> real \<Rightarrow> state \<Rightarrow> real \<times> state" where
  "random2 lo hi s =
     ((if lo > hi then fst (random01 s) * (lo - hi) + hi else fst (random01 s) * (hi - lo) + lo),
      snd (random01 s))"

subsection \<open>Creating balls\<close>

text \<open>
  \<^verbatim>\<open>createBall(x, y, r, colour, extra)\<close>, lines 463-488. The three fields of
  \<^verbatim>\<open>extra\<close> are separate arguments; a missing or empty \<^verbatim>\<open>extra.id\<close> is falsy and the
  id is generated with one call of \<^verbatim>\<open>random\<close>. The new object gets the next free
  address and its body is added to the world.
\<close>

definition generatedId :: "state \<Rightarrow> ball_id \<times> state" where
  "generatedId s = (Anon \<lfloor>fst (random1 1000000000 s)\<rfloor>, snd (random1 1000000000 s))"

definition ballId :: "string option \<Rightarrow> state \<Rightarrow> ball_id \<times> state" where
  "ballId extraId s =
     (case extraId of
        Some i \<Rightarrow> (if i \<noteq> [] then (Named i, s) else generatedId s)
      | None \<Rightarrow> generatedId s)"

definition createBall ::
  "real \<Rightarrow> real \<Rightarrow> real \<Rightarrow> string \<Rightarrow> string option \<Rightarrow> bool \<Rightarrow> bool \<Rightarrow> state \<Rightarrow> nat \<times> state" where
  "createBall x y r col extraId extraIsCue extraIsRed s =
     (let s1 = snd (ballId extraId s);
          b = \<lparr> bid = fst (ballId extraId s), colour = col, position = (x, y),
                velocity = (0, 0), force = (0, 0), rad = r,
                isCue = extraIsCue, isRed = extraIsRed, potted = False \<rparr>;
          a = nextAddr s1
      in (a, s1\<lparr> heap := (heap s1)(a \<mapsto> b), nextAddr := Suc a,
                  world := insert a (world s1) \<rparr>))"

text \<open>\<^verbatim>\<open>createColouredBalls()\<close>, lines 490-501.\<close>

definition createColouredBalls :: "state \<Rightarrow> nat list \<times> state" where
  "createColouredBalls s =
    (let r = ballR (tbl s);
         sp = spots (tbl s);
         (a1, s1) = createBall (fst (yellow sp)) (snd (yellow sp)) r ''#f6e85d'' (Some ''yellow'') False False s;
         (a2, s2) = createBall (fst (green sp)) (snd (green sp)) r ''#2ecc71'' (Some ''green'') False False s1;
         (a3, s3) = createBall (fst (brown sp)) (snd (brown sp)) r ''#8e5a2b'' (Some ''brown'') False False s2;
         (a4, s4) = createBall (fst (blue sp)) (snd (blue sp)) r ''#2e6cf6'' (Some ''blue'') False False s3;
         (a5, s5) = createBall (fst (pink sp)) (snd (pink sp)) r ''#f5a3c7'' (Some ''pink'') False False s4;
         (a6, s6) = createBall (fst (black sp)) (snd (black sp)) r ''#222222'' (Some ''black'') False False s5
     in ([a1, a2, a3, a4, a5, a6], s6))"

subsection \<open>Overlap and surface tests\<close>

text \<open>\<^verbatim>\<open>pointInSurface(px, py, marginR)\<close>, lines 1017-1025.\<close>

definition pointInSurface :: "table \<Rightarrow> real \<Rightarrow> real \<Rightarrow> real \<Rightarrow> bool" where
  "pointInSurface t px py marginR =
    (let s = surface t
     in px \<ge> rx s + marginR \<and> px \<le> rx s + rw s - marginR \<and>
        py \<ge> ry s + marginR \<and> py \<le> ry s + rh s - marginR)"

text \<open>\<^verbatim>\<open>pointInD(px, py)\<close>, lines 1009-1015.\<close>

definition pointInD :: "table \<Rightarrow> real \<Rightarrow> real \<Rightarrow> bool" where
  "pointInD t px py =
    (if \<not> pointInSurface t px py (ballR t) then False
     else if px > baulkX t then False
     else dist_p5 px py (fst (dCenter t)) (snd (dCenter t)) \<le> dRadius t)"

text \<open>
  The array \<^verbatim>\<open>all\<close> that several functions build:
  \<^verbatim>\<open>[...listA, ...listB]\<close> followed by the cue ball when there is one.
\<close>

definition allOf :: "nat list \<Rightarrow> nat list \<Rightarrow> nat option \<Rightarrow> nat list" where
  "allOf listA listB cue = listA @ listB @ (case cue of None \<Rightarrow> [] | Some c \<Rightarrow> [c])"

text \<open>
  \<^verbatim>\<open>nonOverlapping(x, y, r, listA, listB, cue)\<close>, lines 1027-1038: the loop with its
  early \<^verbatim>\<open>return false\<close>.
\<close>

fun nonOverlappingLoop :: "(nat \<Rightarrow> ball option) \<Rightarrow> real \<Rightarrow> real \<Rightarrow> real \<Rightarrow> nat list \<Rightarrow> bool" where
  "nonOverlappingLoop h x y minDist [] = True"
| "nonOverlappingLoop h x y minDist (a # as) =
     (case h a of
        None \<Rightarrow> nonOverlappingLoop h x y minDist as
      | Some b \<Rightarrow>
          if potted b then nonOverlappingLoop h x y minDist as
          else if dist_p5 x y (fst (position b)) (snd (position b)) < minDist then False
          else nonOverlappingLoop h x y minDist as)"

definition nonOverlapping ::
  "state \<Rightarrow> real \<Rightarrow> real \<Rightarrow> real \<Rightarrow> nat list \<Rightarrow> nat list \<Rightarrow> nat option \<Rightarrow> bool" where
  "nonOverlapping s x y r listA listB cue =
     nonOverlappingLoop (heap s) x y (r * 2.05) (allOf listA listB cue)"

subsection \<open>The three layouts\<close>

text \<open>
  \<^verbatim>\<open>createRedsStandardTriangle()\<close>, lines 503-525. A \<^verbatim>\<open>for\<close> loop over a fixed
  range is a \<open>fold\<close> over that range; the accumulator is the local \<^verbatim>\<open>list\<close> and the
  state.
\<close>

definition triangleBall :: "nat \<Rightarrow> nat \<Rightarrow> nat list \<times> state \<Rightarrow> nat list \<times> state" where
  "triangleBall row col acc =
    (let s = snd acc;
         r = ballR (tbl s);
         d = ballD (tbl s);
         sf = surface (tbl s);
         apexX = fst (pink (spots (tbl s))) + d * 2.0;
         centerY = ry sf + rh sf / 2;
         xStep = d * 0.98;
         yStep = d * 1.05;
         x = apexX + real row * xStep;
         y = centerY + (real col - real row / 2) * yStep;
         (a, s') = createBall x y r ''#c1121f'' None False True s
     in (fst acc @ [a], s'))"

definition createRedsStandardTriangle :: "state \<Rightarrow> nat list \<times> state" where
  "createRedsStandardTriangle s =
     fold (\<lambda>row. fold (triangleBall row) [0..<Suc row]) [0..<5] ([], s)"

text \<open>\<^verbatim>\<open>createRedsPracticeLayout()\<close>, lines 568-591.\<close>

definition practiceBall :: "nat \<Rightarrow> nat \<Rightarrow> nat list \<times> state \<Rightarrow> nat list \<times> state" where
  "practiceBall row col acc =
    (let s = snd acc;
         r = ballR (tbl s);
         sf = surface (tbl s);
         d = ballD (tbl s);
         startX = rx sf + rw sf * 0.60;
         startY = ry sf + rh sf * 0.22;
         x = startX + real col * d * 2.2;
         y = startY + real row * d * 2.2
     in if pointInSurface (tbl s) x y r \<and> nonOverlapping s x y r (fst acc) (colours s) (cueBall s)
        then (let (a, s') = createBall x y r ''#c1121f'' None False True s in (fst acc @ [a], s'))
        else acc)"

definition createRedsPracticeLayout :: "state \<Rightarrow> nat list \<times> state" where
  "createRedsPracticeLayout s =
     fold (\<lambda>row. fold (practiceBall row) [0..<5]) [0..<3] ([], s)"

text \<open>
  \<^verbatim>\<open>createRedsClusteredRandom()\<close>, lines 527-566. A cluster is \<^verbatim>\<open>{ x, y, spread }\<close>.
  Indexing \<^verbatim>\<open>clusters\<close> outside its range yields \<^verbatim>\<open>undefined\<close>, and reading
  \<^verbatim>\<open>c.x\<close> then throws; the model returns \<open>None\<close> there.
\<close>

record cluster =
  clX :: real
  clY :: real
  clSpread :: real

definition pickCluster :: "cluster list \<times> state \<Rightarrow> cluster list \<times> state" where
  "pickCluster acc =
    (let s = snd acc;
         sf = surface (tbl s);
         (x, s1) = random2 (rx sf + rw sf * 0.55) (rx sf + rw sf * 0.88) s;
         (y, s2) = random2 (ry sf + rh sf * 0.20) (ry sf + rh sf * 0.80) s1;
         (sp, s3) = random2 (ballD (tbl s) * 2.0) (ballD (tbl s) * 4.0) s2
     in (fst acc @ [\<lparr> clX = x, clY = y, clSpread = sp \<rparr>], s3))"

text \<open>
  The inner loop \<^verbatim>\<open>for (attempt = 0; attempt < 300 && !placed; attempt++)\<close>; the
  first argument counts the attempts that remain. The result says whether a ball was
  placed.
\<close>

fun attemptLoop :: "nat \<Rightarrow> cluster list \<Rightarrow> nat list \<Rightarrow> state \<Rightarrow> (bool \<times> nat list \<times> state) option" where
  "attemptLoop 0 clusters list s = Some (False, list, s)"
| "attemptLoop (Suc k) clusters list s =
    (let r = ballR (tbl s);
         (u, s1) = random1 (real (length clusters)) s;
         idx = \<lfloor>u\<rfloor>
     in if idx < 0 \<or> idx \<ge> int (length clusters) then None
        else
          (let c = clusters ! nat idx;
               (x, s2) = random2 (clX c - clSpread c) (clX c + clSpread c) s1;
               (y, s3) = random2 (clY c - clSpread c) (clY c + clSpread c) s2
           in if \<not> pointInSurface (tbl s3) x y r then attemptLoop k clusters list s3
              else if \<not> nonOverlapping s3 x y r list (colours s3) (cueBall s3)
                then attemptLoop k clusters list s3
              else (let (a, s4) = createBall x y r ''#c1121f'' None False True s3
                    in Some (True, list @ [a], s4))))"

definition fallbackBall :: "nat \<Rightarrow> nat list \<Rightarrow> state \<Rightarrow> nat list \<times> state" where
  "fallbackBall i list s =
    (let t = tbl s;
         r = ballR t;
         fx = fst (pink (spots t)) + ballD t * 2 + real (i mod 5) * ballD t * 1.1;
         fy = (ry (surface t) + rh (surface t) / 2) + (real (i div 5) - 1) * ballD t * 1.2
     in if pointInSurface t fx fy r \<and> nonOverlapping s fx fy r list (colours s) (cueBall s)
        then (let (a, s') = createBall fx fy r ''#c1121f'' None False True s in (list @ [a], s'))
        else (list, s))"

fun clusteredLoop :: "nat list \<Rightarrow> cluster list \<Rightarrow> nat list \<Rightarrow> state \<Rightarrow> (nat list \<times> state) option" where
  "clusteredLoop [] clusters list s = Some (list, s)"
| "clusteredLoop (i # is) clusters list s =
    (case attemptLoop 300 clusters list s of
       None \<Rightarrow> None
     | Some (placed, list', s') \<Rightarrow>
         if placed then clusteredLoop is clusters list' s'
         else clusteredLoop is clusters (fst (fallbackBall i list' s')) (snd (fallbackBall i list' s')))"

definition createRedsClusteredRandom :: "state \<Rightarrow> (nat list \<times> state) option" where
  "createRedsClusteredRandom s =
    (let (clusters, s1) = fold (\<lambda>i. pickCluster) [0..<3::nat] ([], s)
     in clusteredLoop [0..<15] clusters [] s1)"

subsection \<open>Modes\<close>

text \<open>\<^verbatim>\<open>clearBallsOnly()\<close>, lines 452-461.\<close>

definition clearBallsOnly :: "state \<Rightarrow> state" where
  "clearBallsOnly s =
    (let s1 = fold (\<lambda>a st. if heap st a \<noteq> None then st\<lparr> world := world st - {a} \<rparr> else st)
                (allOf (reds s) (colours s) (cueBall s)) s
     in s1\<lparr> reds := [], colours := [], cueBall := None \<rparr>)"

text \<open>
  \<^verbatim>\<open>setMode(nextMode)\<close>, lines 418-450. The result is \<open>None\<close> when the clustered
  layout throws.
\<close>

definition resetShotState :: "state \<Rightarrow> state" where
  "resetShotState s =
     s\<lparr> cueBall := None, aimPower := 0.35, aimAngle := 0,
        impactEffects := [], pocketEffects := [],
        notice := (notice s)\<lparr> active := False, framesLeft := 0 \<rparr>,
        shotsTaken := 0, shotInProgress := False, shotPottedThisShot := [],
        shotFoulThisShot := False, shotLog := [] \<rparr>"

definition setMode :: "nat \<Rightarrow> state \<Rightarrow> state option" where
  "setMode nextMode s =
    (let s1 = s\<lparr> mode := nextMode, gameOver := False, gameOverReason := [] \<rparr>;
         s2 = clearBallsOnly s1;
         s3 = (snd (createColouredBalls s2))\<lparr> colours := fst (createColouredBalls s2) \<rparr>
     in if mode s3 = 1 then
          Some (resetShotState ((snd (createRedsStandardTriangle s3))\<lparr> reds := fst (createRedsStandardTriangle s3) \<rparr>))
        else if mode s3 = 2 then
          (case createRedsClusteredRandom s3 of
             None \<Rightarrow> None
           | Some (l, s4) \<Rightarrow> Some (resetShotState (s4\<lparr> reds := l \<rparr>)))
        else if mode s3 = 3 then
          Some (resetShotState ((snd (createRedsPracticeLayout s3))\<lparr> reds := fst (createRedsPracticeLayout s3) \<rparr>))
        else Some (resetShotState s3))"

subsection \<open>Rest and motion tests\<close>

text \<open>The object behind the global \<^verbatim>\<open>cueBall\<close>, \<open>None\<close> when it is null.\<close>

definition cueObj :: "state \<Rightarrow> ball option" where
  "cueObj s = (case cueBall s of None \<Rightarrow> None | Some c \<Rightarrow> heap s c)"

text \<open>\<^verbatim>\<open>ballIsMoving(b)\<close>, lines 818-822.\<close>

definition ballIsMoving :: "ball option \<Rightarrow> bool" where
  "ballIsMoving ob =
    (case ob of
       None \<Rightarrow> False
     | Some b \<Rightarrow>
         if potted b then False
         else \<bar>fst (velocity b)\<bar> > 0.08 \<or> \<bar>snd (velocity b)\<bar> > 0.08)"

text \<open>\<^verbatim>\<open>areAnyBallsMoving()\<close>, lines 824-831: the loop with its early \<^verbatim>\<open>return true\<close>.\<close>

fun anyMovingLoop :: "(nat \<Rightarrow> ball option) \<Rightarrow> nat list \<Rightarrow> bool" where
  "anyMovingLoop h [] = False"
| "anyMovingLoop h (a # as) = (if ballIsMoving (h a) then True else anyMovingLoop h as)"

definition areAnyBallsMoving :: "state \<Rightarrow> bool" where
  "areAnyBallsMoving s = anyMovingLoop (heap s) (allOf (reds s) (colours s) (cueBall s))"

text \<open>\<^verbatim>\<open>isCueBallResting()\<close>, lines 987-991.\<close>

definition isCueBallResting :: "state \<Rightarrow> bool" where
  "isCueBallResting s =
    (case cueObj s of
       None \<Rightarrow> False
     | Some b \<Rightarrow> \<bar>fst (velocity b)\<bar> < 0.08 \<and> \<bar>snd (velocity b)\<bar> < 0.08)"

subsection \<open>Shooting\<close>

text \<open>
  Matter's \<^verbatim>\<open>Body.applyForce(body, position, force)\<close> adds \<^verbatim>\<open>force\<close> to
  \<^verbatim>\<open>body.force\<close>; applied at the body's own position it adds no torque.
\<close>

definition applyForce :: "real \<times> real \<Rightarrow> ball \<Rightarrow> ball" where
  "applyForce f b = b\<lparr> force := (fst (force b) + fst f, snd (force b) + snd f) \<rparr>"

text \<open>\<^verbatim>\<open>tryShoot()\<close>, lines 791-816.\<close>

definition tryShoot :: "state \<Rightarrow> state" where
  "tryShoot s =
    (case cueBall s of
       None \<Rightarrow> s
     | Some c \<Rightarrow>
        (case heap s c of
           None \<Rightarrow> s
         | Some cb \<Rightarrow>
             if \<not> isCueBallResting s then s
             else if areAnyBallsMoving s then s
             else
               (let fMag = 0.012 * aimPower s;
                    f = (cos (aimAngle s) * fMag, sin (aimAngle s) * fMag)
                in s\<lparr> shotsTaken := shotsTaken s + 1,
                      shotInProgress := True,
                      shotPottedThisShot := [],
                      shotFoulThisShot := False,
                      heap := (heap s)(c \<mapsto> applyForce f cb),
                      impactEffects := impactEffects s @
                        [\<lparr> effPos = position cb, effT = 0, effDuration = 14 \<rparr>] \<rparr>)))"

text \<open>\<^verbatim>\<open>finalizeShotIfSettled()\<close>, lines 833-854.\<close>

definition finalizeShotIfSettled :: "state \<Rightarrow> state" where
  "finalizeShotIfSettled s =
    (if \<not> shotInProgress s then s
     else if areAnyBallsMoving s then s
     else
       (let outcome = (if shotFoulThisShot s then ''Foul''
                       else if length (shotPottedThisShot s) > 0 then ''Potted'' else ''Miss'');
            log1 = shotLog s @ [\<lparr> shotN = shotsTaken s, outcome = outcome,
                                  pottedBalls = shotPottedThisShot s \<rparr>];
            log2 = (if length log1 > 60 then drop (length log1 - 60) log1 else log1)
        in s\<lparr> shotLog := log2, shotInProgress := False,
              shotPottedThisShot := [], shotFoulThisShot := False \<rparr>))"

subsection \<open>Potting\<close>

text \<open>
  \<^verbatim>\<open>potBall(ball, pocket)\<close>, lines 695-733; \<open>a\<close> is the address of \<^verbatim>\<open>ball\<close>.
  \<^verbatim>\<open>handlePotting\<close> never passes a null ball; for an unmapped address the state is
  returned as it is. \<^verbatim>\<open>spawnConfetti\<close> draws seven random numbers for each of its 36
  particles; the particles themselves are not kept.
\<close>

definition potBall :: "nat \<Rightarrow> pocket \<Rightarrow> state \<Rightarrow> state" where
  "potBall a p s =
    (case heap s a of
       None \<Rightarrow> s
     | Some b \<Rightarrow>
        (let s1 = s\<lparr> heap := (heap s)(a \<mapsto> b\<lparr> potted := True \<rparr>), world := world s - {a} \<rparr>;
             s2 = s1\<lparr> pocketEffects := pocketEffects s1 @
                        [\<lparr> effPos = ppos p, effT = 0, effDuration = 18 \<rparr>] \<rparr>;
             s3 = (if \<not> isCue b then s2\<lparr> rndPos := rndPos s2 + 36 * 7 \<rparr> else s2);
             s4 = (if shotInProgress s3 then
                     (if isCue b then s3\<lparr> shotFoulThisShot := True \<rparr>
                      else s3\<lparr> shotPottedThisShot := shotPottedThisShot s3 @ [(bid b, colour b)] \<rparr>)
                   else s3);
             s5 = (if \<not> isCue b \<and> bid b = Named ''black'' then
                     (let redsCleared =
                            (length (reds s4) > 0 \<and>
                             list_all (\<lambda>r. case heap s4 r of None \<Rightarrow> False | Some rb \<Rightarrow> potted rb)
                               (reds s4))
                      in if redsCleared
                         then s4\<lparr> gameOver := True,
                                  gameOverReason := ''Black potted (reds cleared)'' \<rparr>
                         else s4)
                   else s4)
         in if isCue b
            then s5\<lparr> cueBall := None,
                     notice := \<lparr> active = True, title = ''FOUL: CUE BALL POTTED'',
                                 subtitle = ''Click in the D to place the cue ball'',
                                 framesLeft = 180 \<rparr> \<rparr>
            else s5))"

text \<open>
  \<^verbatim>\<open>handlePotting()\<close>, lines 674-693. The inner loop over the pockets stops at the
  first pocket within the capture radius \<^verbatim>\<open>pr\<close>.
\<close>

fun firstPocket :: "real \<times> real \<Rightarrow> real \<Rightarrow> pocket list \<Rightarrow> pocket option" where
  "firstPocket pos pr [] = None"
| "firstPocket pos pr (p # ps) =
     (if dist_p5 (fst pos) (snd pos) (fst (ppos p)) (snd (ppos p)) < pr then Some p
      else firstPocket pos pr ps)"

fun handlePottingLoop :: "real \<Rightarrow> nat list \<Rightarrow> state \<Rightarrow> state" where
  "handlePottingLoop pr [] s = s"
| "handlePottingLoop pr (a # as) s =
    (case heap s a of
       None \<Rightarrow> handlePottingLoop pr as s
     | Some b \<Rightarrow>
         if potted b then handlePottingLoop pr as s
         else (case firstPocket (position b) pr (pockets s) of
                 None \<Rightarrow> handlePottingLoop pr as s
               | Some p \<Rightarrow> handlePottingLoop pr as (potBall a p s)))"

definition handlePotting :: "state \<Rightarrow> state" where
  "handlePotting s =
     handlePottingLoop (pocketR (tbl s) * 1.18) (allOf (reds s) (colours s) (cueBall s)) s"

text \<open>
  A ball that a scan with capture radius \<open>pr\<close> will pot: the address holds a live ball
  whose centre is closer than \<open>pr\<close> to the centre of some pocket.
\<close>

definition capturable :: "real \<Rightarrow> state \<Rightarrow> nat \<Rightarrow> bool" where
  "capturable pr s a =
    (case heap s a of
       None \<Rightarrow> False
     | Some b \<Rightarrow>
         \<not> potted b \<and>
         list_ex (\<lambda>p. dist_p5 (fst (position b)) (snd (position b))
                        (fst (ppos p)) (snd (ppos p)) < pr) (pockets s))"

subsection \<open>What happens during a shot\<close>

text \<open>
  Between a fire command and the frame that closes the shot, the state changes in two
  ways: the physics engine (\<^verbatim>\<open>stepPhysics\<close>, then \<^verbatim>\<open>stepBalls\<close>) gives the bodies in
  the world new positions and velocities and clears their accumulated force, and
  \<^verbatim>\<open>handlePotting\<close> calls \<^verbatim>\<open>potBall\<close>. The engine is external: its effect is an
  arbitrary function from addresses to a position and a velocity.
\<close>

definition moveBodies :: "(nat \<Rightarrow> (real \<times> real) \<times> (real \<times> real)) \<Rightarrow> state \<Rightarrow> state" where
  "moveBodies f s =
     s\<lparr> heap := (\<lambda>a. case heap s a of
                       None \<Rightarrow> None
                     | Some b \<Rightarrow>
                         if a \<in> world s
                         then Some (b\<lparr> position := fst (f a), velocity := snd (f a), force := (0, 0) \<rparr>)
                         else Some b) \<rparr>"

datatype event = Pot nat pocket | Move "nat \<Rightarrow> (real \<times> real) \<times> (real \<times> real)"

fun applyEvent :: "event \<Rightarrow> state \<Rightarrow> state" where
  "applyEvent (Pot a p) s = potBall a p s"
| "applyEvent (Move f) s = moveBodies f s"

fun run :: "event list \<Rightarrow> state \<Rightarrow> state" where
  "run [] s = s"
| "run (e # es) s = run es (applyEvent e s)"

text \<open>
  Whether some event of a run pots a cue ball, and the \<^verbatim>\<open>{ id, colour }\<close> summaries of
  the balls other than the cue ball that the run pots, in order.
\<close>

fun potsCue :: "event \<Rightarrow> state \<Rightarrow> bool" where
  "potsCue (Pot a p) s = (case heap s a of None \<Rightarrow> False | Some b \<Rightarrow> isCue b)"
| "potsCue (Move f) s = False"

fun pottedBy :: "event \<Rightarrow> state \<Rightarrow> (ball_id \<times> string) list" where
  "pottedBy (Pot a p) s =
     (case heap s a of None \<Rightarrow> [] | Some b \<Rightarrow> if isCue b then [] else [(bid b, colour b)])"
| "pottedBy (Move f) s = []"

fun cuePottedDuring :: "event list \<Rightarrow> state \<Rightarrow> bool" where
  "cuePottedDuring [] s = False"
| "cuePottedDuring (e # es) s = (potsCue e s \<or> cuePottedDuring es (applyEvent e s))"

fun pottedDuring :: "event list \<Rightarrow> state \<Rightarrow> (ball_id \<times> string) list" where
  "pottedDuring [] s = []"
| "pottedDuring (e # es) s = pottedBy e s @ pottedDuring es (applyEvent e s)"

subsection \<open>Trajectory predictor\<close>

text \<open>\<^verbatim>\<open>predictor.maxBounces\<close>, line 99.\<close>

definition maxBounces :: nat where "maxBounces = 3"

text \<open>
  \<^verbatim>\<open>rayCircleHit\<close>, lines 1316-1334; \<open>None\<close> is \<^verbatim>\<open>null\<close>. The predictor calls it
  with a unit direction, so \<open>a\<close> is 1.
\<close>

definition rayCircleHit ::
  "real \<Rightarrow> real \<Rightarrow> real \<Rightarrow> real \<Rightarrow> real \<Rightarrow> real \<Rightarrow> real \<Rightarrow> real option" where
  "rayCircleHit ox oy dx dy cx cy radius =
    (let fx = ox - cx;
         fy = oy - cy;
         a = dx * dx + dy * dy;
         b = 2 * (fx * dx + fy * dy);
         c = fx * fx + fy * fy - radius * radius;
         disc = b * b - 4 * a * c
     in if disc < 0 then None
        else
          (let sdisc = sqrt disc;
               t1 = (- b - sdisc) / (2 * a);
               t2 = (- b + sdisc) / (2 * a)
           in if t1 > 0.0001 then Some t1
              else if t2 > 0.0001 then Some t2
              else None))"

text \<open>
  \<^verbatim>\<open>rayRectHit\<close>, lines 1336-1373. A hit is \<^verbatim>\<open>{ t, x, y, n }\<close>. \<^verbatim>\<open>bestT\<close> is
  \<^verbatim>\<open>Infinity\<close> while \<^verbatim>\<open>best\<close> is null and \<^verbatim>\<open>best.t\<close> afterwards, so the test
  \<^verbatim>\<open>t < bestT\<close> reads \<open>best\<close>.
\<close>

record hit =
  hitT :: real
  hitX :: real
  hitY :: real
  hitN :: "real \<times> real"

definition belowBest :: "real \<Rightarrow> hit option \<Rightarrow> bool" where
  "belowBest t best = (case best of None \<Rightarrow> True | Some h \<Rightarrow> t < hitT h)"

text \<open>
  The statement that occurs four times in \<^verbatim>\<open>rayRectHit\<close>:
  \<^verbatim>\<open>if (t > 0.0001 && c >= lo && c <= hi && t < bestT) { bestT = t; best = h; }\<close>.
\<close>

definition candidate :: "real \<Rightarrow> real \<Rightarrow> real \<Rightarrow> real \<Rightarrow> hit \<Rightarrow> hit option \<Rightarrow> hit option" where
  "candidate t c lo hi h best =
     (if t > 0.0001 \<and> c \<ge> lo \<and> c \<le> hi \<and> belowBest t best then Some h else best)"

definition rayRectHit ::
  "real \<Rightarrow> real \<Rightarrow> real \<Rightarrow> real \<Rightarrow> real \<Rightarrow> real \<Rightarrow> real \<Rightarrow> real \<Rightarrow> hit option" where
  "rayRectHit ox oy dx dy minX minY maxX maxY =
    (let best0 = None;
         best2 =
           (if \<bar>dx\<bar> > 0.000001 then
              (let tx1 = (minX - ox) / dx;
                   y1 = oy + tx1 * dy;
                   best1 = candidate tx1 y1 minY maxY
                             \<lparr> hitT = tx1, hitX = minX, hitY = y1, hitN = (- 1, 0) \<rparr> best0;
                   tx2 = (maxX - ox) / dx;
                   y2 = oy + tx2 * dy
               in candidate tx2 y2 minY maxY
                    \<lparr> hitT = tx2, hitX = maxX, hitY = y2, hitN = (1, 0) \<rparr> best1)
            else best0)
     in if \<bar>dy\<bar> > 0.000001 then
          (let ty1 = (minY - oy) / dy;
               x1 = ox + ty1 * dx;
               best3 = candidate ty1 x1 minX maxX
                         \<lparr> hitT = ty1, hitX = x1, hitY = minY, hitN = (0, - 1) \<rparr> best2;
               ty2 = (maxY - oy) / dy;
               x2 = ox + ty2 * dx
           in candidate ty2 x2 minX maxX
                \<lparr> hitT = ty2, hitX = x2, hitY = maxY, hitN = (0, 1) \<rparr> best3)
        else best2)"

text \<open>
  The reflection of lines 1281-1284: \<^verbatim>\<open>dot = dx * n.x + dy * n.y\<close>, then
  \<^verbatim>\<open>d - 2 * dot * n\<close>.
\<close>

definition reflect :: "real \<times> real \<Rightarrow> real \<times> real \<Rightarrow> real \<times> real" where
  "reflect d n =
    (let dot = fst d * fst n + snd d * snd n
     in (fst d - 2 * dot * fst n, snd d - 2 * dot * snd n))"

text \<open>
  The search for the nearest target ball, lines 1252-1260: the accumulator is
  \<^verbatim>\<open>(bestBallT, bestBall)\<close>, \<open>None\<close> while \<^verbatim>\<open>bestBall\<close> is null and
  \<^verbatim>\<open>bestBallT\<close> is \<^verbatim>\<open>Infinity\<close>.
\<close>

fun bestBallLoop ::
  "(nat \<Rightarrow> ball option) \<Rightarrow> real \<Rightarrow> real \<Rightarrow> real \<Rightarrow> real \<Rightarrow> real \<Rightarrow> nat list \<Rightarrow>
     (real \<times> nat) option \<Rightarrow> (real \<times> nat) option" where
  "bestBallLoop h ox oy dx dy r [] best = best"
| "bestBallLoop h ox oy dx dy r (a # as) best =
    (case h a of
       None \<Rightarrow> bestBallLoop h ox oy dx dy r as best
     | Some b \<Rightarrow>
        (case rayCircleHit ox oy dx dy (fst (position b)) (snd (position b)) (r + rad b) of
           None \<Rightarrow> bestBallLoop h ox oy dx dy r as best
         | Some t \<Rightarrow>
             if t > 0 \<and> (case best of None \<Rightarrow> True | Some (bt, bb) \<Rightarrow> t < bt)
             then bestBallLoop h ox oy dx dy r as (Some (t, a))
             else bestBallLoop h ox oy dx dy r as best))"

text \<open>
  The local variables of \<^verbatim>\<open>drawTrajectoryPredictor\<close> that its loop changes, with the
  loop counter \<^verbatim>\<open>bounce\<close>.
\<close>

record pred =
  rayO :: "real \<times> real"
  rayD :: "real \<times> real"
  points :: "(real \<times> real) list"
  hitBall :: "nat option"
  hitPoint :: "(real \<times> real) option"
  bounce :: nat

text \<open>
  The loop \<^verbatim>\<open>for (bounce = 0; bounce <= predictor.maxBounces; bounce++)\<close>, lines
  1249-1289. A \<^verbatim>\<open>break\<close> returns the variables as they are.
\<close>

definition ballBeforeWall :: "(real \<times> nat) option \<Rightarrow> hit option \<Rightarrow> (real \<times> nat) option" where
  "ballBeforeWall bestBall wallHit =
    (case bestBall of
       None \<Rightarrow> None
     | Some (bt, bb) \<Rightarrow>
         (case wallHit of
            None \<Rightarrow> Some (bt, bb)
          | Some w \<Rightarrow> if bt < hitT w then Some (bt, bb) else None))"

function predictLoop ::
  "(nat \<Rightarrow> ball option) \<Rightarrow> nat list \<Rightarrow> real \<Rightarrow> real \<times> real \<times> real \<times> real \<Rightarrow> pred \<Rightarrow> pred" where
  "predictLoop h targets r bounds v =
    (if bounce v \<le> maxBounces then
       (let ox = fst (rayO v); oy = snd (rayO v);
            dx = fst (rayD v); dy = snd (rayD v);
            minX = fst bounds; minY = fst (snd bounds);
            maxX = fst (snd (snd bounds)); maxY = snd (snd (snd bounds));
            wallHit = rayRectHit ox oy dx dy minX minY maxX maxY;
            bestBall = bestBallLoop h ox oy dx dy r targets None
        in case ballBeforeWall bestBall wallHit of
             Some (bestBallT, b) \<Rightarrow>
               (let px = ox + dx * bestBallT;
                    py = oy + dy * bestBallT
                in v\<lparr> points := points v @ [(px, py)],
                      hitBall := Some b,
                      hitPoint := Some (px, py) \<rparr>)
           | None \<Rightarrow>
               (case wallHit of
                  None \<Rightarrow> v
                | Some w \<Rightarrow>
                   (let wx = hitX w; wy = hitY w;
                        d' = reflect (dx, dy) (hitN w);
                        eps = 0.5
                    in predictLoop h targets r bounds
                         (v\<lparr> points := points v @ [(wx, wy)],
                             rayD := d',
                             rayO := (wx + fst d' * eps, wy + snd d' * eps),
                             bounce := Suc (bounce v) \<rparr>))))
     else v)"
  by pat_completeness auto
termination
  by (relation "measure (\<lambda>(h, targets, r, bounds, v). Suc maxBounces - bounce v)") auto

declare predictLoop.simps [simp del]

text \<open>
  \<^verbatim>\<open>drawTrajectoryPredictor(startX, startY, angle)\<close>, lines 1221-1289, up to the end
  of the loop; the drawing that follows only reads the result.
\<close>

definition drawTrajectoryPredictor :: "state \<Rightarrow> real \<Rightarrow> real \<Rightarrow> real \<Rightarrow> pred" where
  "drawTrajectoryPredictor s startX startY angle =
    (let sf = surface (tbl s);
         r = ballR (tbl s);
         minX = rx sf + r;
         maxX = rx sf + rw sf - r;
         minY = ry sf + r;
         maxY = ry sf + rh sf - r;
         ox = constrain startX minX maxX;
         oy = constrain startY minY maxY;
         dx0 = cos angle;
         dy0 = sin angle;
         dMag = (if sqrt (dx0 * dx0 + dy0 * dy0) = 0 then 1 else sqrt (dx0 * dx0 + dy0 * dy0));
         dx = dx0 / dMag;
         dy = dy0 / dMag;
         targets = filter (\<lambda>a. case heap s a of None \<Rightarrow> False | Some b \<Rightarrow> \<not> potted b)
                     (reds s @ colours s)
     in predictLoop (heap s) targets r (minX, minY, maxX, maxY)
          \<lparr> rayO = (ox, oy), rayD = (dx, dy), points = [(ox, oy)],
            hitBall = None, hitPoint = None, bounce = 0 \<rparr>)"

subsection \<open>Concrete states\<close>

text \<open>
  The globals as the script initialises them (lines 35-106) with the geometry of a
  1196 x 720 canvas, before any ball exists; and balls to put on the table.
\<close>

definition initialState :: state where
  "initialState =
     \<lparr> heap = (\<lambda>a. None), nextAddr = 0, world = {}, rnd = (\<lambda>k. 1 / 2), rndPos = 0,
       tbl = rebuildTableGeometry 1196 720,
       pockets = buildPocketList (rebuildTableGeometry 1196 720),
       reds = [], colours = [], cueBall = None, mode = 1,
       aimAngle = 0, aimPower = 0.35, impactEffects = [], pocketEffects = [],
       gameOver = False, gameOverReason = [],
       notice = \<lparr> active = False, title = [], subtitle = [], framesLeft = 0 \<rparr>,
       shotsTaken = 0, shotInProgress = False, shotPottedThisShot = [],
       shotFoulThisShot = False, shotLog = [] \<rparr>"

definition cueBallAt :: "real \<times> real \<Rightarrow> real \<times> real \<Rightarrow> ball" where
  "cueBallAt pos vel =
     \<lparr> bid = Anon 7, colour = ''#f5f5f5'', position = pos, velocity = vel, force = (0, 0),
       rad = 6.25, isCue = True, isRed = False, potted = False \<rparr>"

definition redBallAt :: "real \<times> real \<Rightarrow> ball" where
  "redBallAt pos =
     \<lparr> bid = Anon 8, colour = ''#c1121f'', position = pos, velocity = (0, 0), force = (0, 0),
       rad = 6.25, isCue = False, isRed = True, potted = False \<rparr>"

definition blackBallAt :: "real \<times> real \<Rightarrow> ball" where
  "blackBallAt pos =
     \<lparr> bid = Named ''black'', colour = ''#222222'', position = pos, velocity = (0, 0),
       force = (0, 0), rad = 6.25, isCue = False, isRed = False, potted = False \<rparr>"

text \<open>A table holding a cue ball (address 10), one red (address 11) and the black (address 12).\<close>

definition threeBalls :: "real \<times> real \<Rightarrow> real \<times> real \<Rightarrow> real \<times> real \<Rightarrow> state" where
  "threeBalls cueVel redPos blackPos =
     initialState\<lparr> heap := [10 \<mapsto> cueBallAt (200, 200) cueVel, 11 \<mapsto> redBallAt redPos,
                             12 \<mapsto> blackBallAt blackPos],
                   nextAddr := 13, world := {10, 11, 12},
                   reds := [11], colours := [12], cueBall := Some 10 \<rparr>"

text \<open>The same table with no red ball at all, and a pocket to pot into.\<close>

definition noReds :: state where
  "noReds = (threeBalls (0, 0) (300, 300) (400, 400))\<lparr> reds := [] \<rparr>"

definition cornerPocket :: pocket where
  "cornerPocket = \<lparr> pid = ''TL'', ppos = (41.875, 160.875) \<rparr>"

subsection \<open>Separation of the balls of a layout\<close>

text \<open>
  Two addresses hold balls whose centres are at least \<open>m\<close> apart.
\<close>

definition apart :: "(nat \<Rightarrow> ball option) \<Rightarrow> real \<Rightarrow> nat \<Rightarrow> nat \<Rightarrow> bool" where
  "apart h m a a' =
    (case h a of
       None \<Rightarrow> False
     | Some b \<Rightarrow>
        (case h a' of
           None \<Rightarrow> False
         | Some b' \<Rightarrow>
             dist_p5 (fst (position b)) (snd (position b))
                     (fst (position b')) (snd (position b')) \<ge> m))"

text \<open>
  What the layout loops maintain for the balls placed so far: the addresses are distinct
  and allocated, each holds a live ball, and any two of them are at least \<open>m\<close> apart.
\<close>

definition layoutInv :: "state \<Rightarrow> real \<Rightarrow> nat list \<Rightarrow> bool" where
  "layoutInv s m as =
    (distinct as \<and>
     (\<forall>a \<in> set as. a < nextAddr s \<and> (case heap s a of None \<Rightarrow> False | Some b \<Rightarrow> \<not> potted b)) \<and>
     (\<forall>a \<in> set as. \<forall>a' \<in> set as. a \<noteq> a' \<longrightarrow> apart (heap s) m a a'))"

text \<open>
  A list of points in units of one ball diameter, any two of which are at least 1.025
  apart (the square of 1.025 is 1.050625).
\<close>

fun farApart :: "(real \<times> real) list \<Rightarrow> bool" where
  "farApart [] = True"
| "farApart (p # ps) =
     (list_all (\<lambda>q. (fst p - fst q)\<^sup>2 + (snd p - snd q)\<^sup>2 \<ge> 1.050625) ps \<and> farApart ps)"

text \<open>
  What holds of the local \<^verbatim>\<open>list\<close> and the globals while a layout loop runs on table
  \<open>T\<close> with colours \<open>C\<close> and random generator \<open>R\<close>: the reds placed so far and the
  colours satisfy the invariant for the minimum distance \<^verbatim>\<open>r * 2.05\<close>, and there is
  no cue ball.
\<close>

definition layoutAcc :: "table \<Rightarrow> nat list \<Rightarrow> (nat \<Rightarrow> real) \<Rightarrow> nat list \<times> state \<Rightarrow> bool" where
  "layoutAcc T C R acc =
    (layoutInv (snd acc) (ballR T * 2.05) (fst acc @ C) \<and>
     tbl (snd acc) = T \<and> colours (snd acc) = C \<and> cueBall (snd acc) = None \<and>
     rnd (snd acc) = R)"

text \<open>
  The balls created from address \<open>n\<close> on are live and sit at the points \<open>ps\<close>, in
  order.
\<close>

definition placedAt :: "(nat \<Rightarrow> ball option) \<Rightarrow> nat \<Rightarrow> (real \<times> real) list \<Rightarrow> bool" where
  "placedAt h n ps =
    (\<forall>k < length ps. case h (n + k) of None \<Rightarrow> False | Some b \<Rightarrow> \<not> potted b \<and> position b = ps ! k)"

text \<open>
  The spots of the six colours (in the order in which \<^verbatim>\<open>createColouredBalls\<close> creates
  them) and the fifteen places of the triangle, in units of one ball diameter, measured
  from the left end of the playing surface's centre line; and the same points on a table
  with that origin and that ball diameter.
\<close>

definition unitColours :: "(real \<times> real) list" where
  "unitColours =
     [(14.2416, 5.412), (14.2416, - 5.412), (14.2416, 0), (34.4, 0), (51.6, 0), (62.608, 0)]"

definition unitTriangle :: "(real \<times> real) list" where
  "unitTriangle =
     concat (map (\<lambda>row. map (\<lambda>col. (53.6 + 0.98 * real row, (real col - real row / 2) * 1.05))
                            [0..<Suc row]) [0..<5])"

definition scaled :: "real \<Rightarrow> real \<Rightarrow> real \<Rightarrow> real \<times> real \<Rightarrow> real \<times> real" where
  "scaled x0 yc d p = (x0 + d * fst p, yc + d * snd p)"

text \<open>
  What holds while balls are created one after another from address \<open>n\<close> on, on table
  \<open>T\<close>: they sit at the points \<open>ps\<close>, and the local \<^verbatim>\<open>list\<close> holds the addresses from
  the \<open>c\<close>-th on.
\<close>

definition placedAcc :: "table \<Rightarrow> nat \<Rightarrow> nat \<Rightarrow> (real \<times> real) list \<Rightarrow> nat list \<times> state \<Rightarrow> bool" where
  "placedAcc T n c ps acc =
    (tbl (snd acc) = T \<and> c \<le> length ps \<and> fst acc = [n + c..<n + length ps] \<and>
     nextAddr (snd acc) = n + length ps \<and> placedAt (heap (snd acc)) n ps)"

section \<open>Geometry ratios\<close>

lemma geometry_outer:
  "tableH (rebuildTableGeometry width height) = tableW (rebuildTableGeometry width height) / 2"
  "ballD (rebuildTableGeometry width height) = tableH (rebuildTableGeometry width height) / 36"
  "ballR (rebuildTableGeometry width height) = ballD (rebuildTableGeometry width height) / 2"
  "rail (rebuildTableGeometry width height) = ballD (rebuildTableGeometry width height) * 1.6"
  "pocketR (rebuildTableGeometry width height) = 1.5 * ballD (rebuildTableGeometry width height) / 2"
  unfolding rebuildTableGeometry_def Let_def
  by (simp_all only: table.simps rect.simps)

lemma geometry_surface:
  "rw (surface (rebuildTableGeometry width height)) =
     tableW (rebuildTableGeometry width height) - 2 * rail (rebuildTableGeometry width height)"
  "rh (surface (rebuildTableGeometry width height)) =
     tableH (rebuildTableGeometry width height) - 2 * rail (rebuildTableGeometry width height)"
  unfolding rebuildTableGeometry_def Let_def
  by (simp_all only: table.simps rect.simps)

lemma tableW_900: "tableW (rebuildTableGeometry 1196 720) = 900"
  unfolding rebuildTableGeometry_def Let_def
  by (simp only: table.simps rect.simps)
     (simp add: topBarH_def bottomBarH_def sidePad_def panelW_def panelGap_def)

lemma geometry_900:
  "tableH (rebuildTableGeometry 1196 720) = 450"
  "ballD (rebuildTableGeometry 1196 720) = 12.5"
  "pocketR (rebuildTableGeometry 1196 720) = 9.375"
  "rw (surface (rebuildTableGeometry 1196 720)) = 860"
  "rh (surface (rebuildTableGeometry 1196 720)) = 410"
  "ballR (rebuildTableGeometry 1196 720) = 6.25"
  by (simp_all add: geometry_outer geometry_surface tableW_900)

text \<open>
  C1 (as stated). The claim says the pocket radius is 1.5 times the ball diameter, 18.75 at
  table length 900. On a 1196 x 720 canvas the table length is 900 and the ball diameter
  12.5, but the pocket radius the code stores is 9.375: the factor 1.5 gives the pocket
  diameter \<^verbatim>\<open>pocketD\<close>, which is then halved.
\<close>

theorem C1_pocket_radius_counterexample:
  "tableW (rebuildTableGeometry 1196 720) = 900 \<and>
   tableH (rebuildTableGeometry 1196 720) = 450 \<and>
   ballD (rebuildTableGeometry 1196 720) = 12.5 \<and>
   pocketR (rebuildTableGeometry 1196 720) \<noteq> 1.5 * ballD (rebuildTableGeometry 1196 720) \<and>
   pocketR (rebuildTableGeometry 1196 720) \<noteq> 18.75"
  by (simp add: geometry_900 tableW_900)

text \<open>
  C1 (amended). For every canvas size, the table width is half the table length, the ball
  diameter is the table width over 36, and the pocket diameter (twice the stored pocket
  radius) is 1.5 times the ball diameter, so the pocket radius is 0.75 times the ball
  diameter. At table length 900 (canvas 1196 x 720) the width is 450, the ball diameter
  12.5 and the pocket radius 9.375.
\<close>

theorem C1_pocket_radius:
  "tableH (rebuildTableGeometry width height) = tableW (rebuildTableGeometry width height) / 2 \<and>
   ballD (rebuildTableGeometry width height) = tableH (rebuildTableGeometry width height) / 36 \<and>
   2 * pocketR (rebuildTableGeometry width height) = 1.5 * ballD (rebuildTableGeometry width height) \<and>
   pocketR (rebuildTableGeometry width height) = 0.75 * ballD (rebuildTableGeometry width height) \<and>
   tableW (rebuildTableGeometry 1196 720) = 900 \<and>
   tableH (rebuildTableGeometry 1196 720) = 450 \<and>
   ballD (rebuildTableGeometry 1196 720) = 12.5 \<and>
   pocketR (rebuildTableGeometry 1196 720) = 9.375"
  by (simp add: geometry_900 tableW_900 geometry_outer)

text \<open>
  C2 (as stated). The claim puts the 2:1 ratio and the ball diameter on the playing
  surface. The surface is the outer rectangle shrunk by the rail on every side, so on a
  1196 x 720 canvas it measures 860 x 410: its width is not half its length, and the ball
  diameter 12.5 is not 410 / 36.
\<close>

theorem C2_surface_ratio_counterexample:
  "rw (surface (rebuildTableGeometry 1196 720)) = 860 \<and>
   rh (surface (rebuildTableGeometry 1196 720)) = 410 \<and>
   rh (surface (rebuildTableGeometry 1196 720)) \<noteq> rw (surface (rebuildTableGeometry 1196 720)) / 2 \<and>
   ballD (rebuildTableGeometry 1196 720) \<noteq> rh (surface (rebuildTableGeometry 1196 720)) / 36"
  by (simp add: geometry_900)

text \<open>
  C2 (amended). For every canvas size, the outer table rectangle has width equal to half
  its length and the ball diameter is the outer width over 36; the playing surface is the
  outer rectangle less two rails in each direction, so its width is half its length minus
  one rail.
\<close>

theorem C2_surface_ratio:
  "tableH (rebuildTableGeometry width height) = tableW (rebuildTableGeometry width height) / 2 \<and>
   ballD (rebuildTableGeometry width height) = tableH (rebuildTableGeometry width height) / 36 \<and>
   rw (surface (rebuildTableGeometry width height)) =
     tableW (rebuildTableGeometry width height) - 2 * rail (rebuildTableGeometry width height) \<and>
   rh (surface (rebuildTableGeometry width height)) =
     tableH (rebuildTableGeometry width height) - 2 * rail (rebuildTableGeometry width height) \<and>
   rh (surface (rebuildTableGeometry width height)) =
     rw (surface (rebuildTableGeometry width height)) / 2 - rail (rebuildTableGeometry width height)"
  by (simp add: geometry_outer geometry_surface)

section \<open>Firing a shot\<close>

lemma allOf_simps:
  "allOf xs ys None = xs @ ys"
  "allOf xs ys (Some c) = xs @ ys @ [c]"
  by (simp_all add: allOf_def)

lemma impulse_magnitude:
  "sqrt ((cos a * m)\<^sup>2 + (sin a * m)\<^sup>2) = \<bar>m\<bar>"
proof -
  have "(cos a * m)\<^sup>2 + (sin a * m)\<^sup>2 = ((cos a)\<^sup>2 + (sin a)\<^sup>2) * m\<^sup>2"
    by (simp only: power_mult_distrib distrib_right)
  also have "\<dots> = m\<^sup>2" by simp
  finally show ?thesis by simp
qed

lemma tryShoot_rejected:
  "\<not> (cueObj s \<noteq> None \<and> isCueBallResting s \<and> \<not> areAnyBallsMoving s) \<Longrightarrow> tryShoot s = s"
  by (auto simp: tryShoot_def cueObj_def split: option.splits)

lemma tryShoot_accepted:
  assumes "cueBall s = Some c" and "heap s c = Some cb"
    and "isCueBallResting s" and "\<not> areAnyBallsMoving s"
  shows "tryShoot s =
     s\<lparr> shotsTaken := shotsTaken s + 1, shotInProgress := True, shotPottedThisShot := [],
        shotFoulThisShot := False,
        heap := (heap s)(c \<mapsto> cb\<lparr> force :=
                  (fst (force cb) + cos (aimAngle s) * (0.012 * aimPower s),
                   snd (force cb) + sin (aimAngle s) * (0.012 * aimPower s)) \<rparr>),
        impactEffects := impactEffects s @ [\<lparr> effPos = position cb, effT = 0, effDuration = 14 \<rparr>] \<rparr>"
  using assms by (simp add: tryShoot_def applyForce_def Let_def)

lemma threeBalls_resting: "isCueBallResting (threeBalls (0, 0) (300, 300) (400, 400))"
  by (simp add: threeBalls_def initialState_def isCueBallResting_def cueObj_def cueBallAt_def)

lemma threeBalls_still: "\<not> areAnyBallsMoving (threeBalls (0, 0) (300, 300) (400, 400))"
  by (simp add: threeBalls_def initialState_def areAnyBallsMoving_def allOf_simps
      ballIsMoving_def cueBallAt_def redBallAt_def blackBallAt_def)

lemma threeBalls_moving: "areAnyBallsMoving (threeBalls (1, 0) (300, 300) (400, 400))"
  by (simp add: threeBalls_def initialState_def areAnyBallsMoving_def allOf_simps
      ballIsMoving_def cueBallAt_def redBallAt_def blackBallAt_def)

lemma threeBalls_threshold_still: "\<not> areAnyBallsMoving (threeBalls (0.08, 0) (300, 300) (400, 400))"
  by (simp add: threeBalls_def initialState_def areAnyBallsMoving_def allOf_simps
      ballIsMoving_def cueBallAt_def redBallAt_def blackBallAt_def)

text \<open>
  C6. The fire command leaves the state as it is unless a cue ball exists, it is at rest
  and no ball is moving. When it is accepted, the shot counter goes up by one, a shot is
  opened with an empty potted list and no foul, and the cue ball's force accumulator
  receives the one vector \<open>(cos aimAngle, sin aimAngle)\<close> scaled by \<open>0.012 * aimPower\<close>,
  whose length is \<open>0.012 * aimPower\<close> (the power is never negative); no other ball and
  no other global changes, apart from the impact ring that is drawn.
\<close>

theorem C6_fire:
  "(\<not> (cueObj s \<noteq> None \<and> isCueBallResting s \<and> \<not> areAnyBallsMoving s) \<longrightarrow> tryShoot s = s) \<and>
   (cueBall s = Some c \<and> heap s c = Some cb \<and> isCueBallResting s \<and> \<not> areAnyBallsMoving s \<longrightarrow>
      shotsTaken (tryShoot s) = shotsTaken s + 1 \<and>
      shotInProgress (tryShoot s) \<and>
      shotPottedThisShot (tryShoot s) = [] \<and>
      \<not> shotFoulThisShot (tryShoot s) \<and>
      tryShoot s =
        s\<lparr> shotsTaken := shotsTaken s + 1, shotInProgress := True, shotPottedThisShot := [],
           shotFoulThisShot := False,
           heap := (heap s)(c \<mapsto> cb\<lparr> force :=
                     (fst (force cb) + cos (aimAngle s) * (0.012 * aimPower s),
                      snd (force cb) + sin (aimAngle s) * (0.012 * aimPower s)) \<rparr>),
           impactEffects := impactEffects s @
             [\<lparr> effPos = position cb, effT = 0, effDuration = 14 \<rparr>] \<rparr> \<and>
      sqrt ((cos (aimAngle s) * (0.012 * aimPower s))\<^sup>2 + (sin (aimAngle s) * (0.012 * aimPower s))\<^sup>2)
        = 0.012 * \<bar>aimPower s\<bar> \<and>
      (0 \<le> aimPower s \<longrightarrow>
         sqrt ((cos (aimAngle s) * (0.012 * aimPower s))\<^sup>2 + (sin (aimAngle s) * (0.012 * aimPower s))\<^sup>2)
           = 0.012 * aimPower s))"
proof (intro conjI impI)
  assume "\<not> (cueObj s \<noteq> None \<and> isCueBallResting s \<and> \<not> areAnyBallsMoving s)"
  then show "tryShoot s = s" by (rule tryShoot_rejected)
next
  assume a: "cueBall s = Some c \<and> heap s c = Some cb \<and> isCueBallResting s \<and> \<not> areAnyBallsMoving s"
  then show eq: "tryShoot s =
        s\<lparr> shotsTaken := shotsTaken s + 1, shotInProgress := True, shotPottedThisShot := [],
           shotFoulThisShot := False,
           heap := (heap s)(c \<mapsto> cb\<lparr> force :=
                     (fst (force cb) + cos (aimAngle s) * (0.012 * aimPower s),
                      snd (force cb) + sin (aimAngle s) * (0.012 * aimPower s)) \<rparr>),
           impactEffects := impactEffects s @
             [\<lparr> effPos = position cb, effT = 0, effDuration = 14 \<rparr>] \<rparr>"
    using tryShoot_accepted by blast
  show "shotsTaken (tryShoot s) = shotsTaken s + 1" by (simp add: eq)
  show "shotInProgress (tryShoot s)" by (simp add: eq)
  show "shotPottedThisShot (tryShoot s) = []" by (simp add: eq)
  show "\<not> shotFoulThisShot (tryShoot s)" by (simp add: eq)
  have "sqrt ((cos (aimAngle s) * (0.012 * aimPower s))\<^sup>2 + (sin (aimAngle s) * (0.012 * aimPower s))\<^sup>2)
        = \<bar>0.012 * aimPower s\<bar>"
    by (rule impulse_magnitude)
  also have "\<dots> = 0.012 * \<bar>aimPower s\<bar>"
    by (simp add: abs_mult)
  finally show m: "sqrt ((cos (aimAngle s) * (0.012 * aimPower s))\<^sup>2 + (sin (aimAngle s) * (0.012 * aimPower s))\<^sup>2)
        = 0.012 * \<bar>aimPower s\<bar>" .
  assume "0 \<le> aimPower s"
  then show "sqrt ((cos (aimAngle s) * (0.012 * aimPower s))\<^sup>2 + (sin (aimAngle s) * (0.012 * aimPower s))\<^sup>2)
        = 0.012 * aimPower s"
    using m by simp
qed

text \<open>
  A fire command while the cue ball moves changes nothing; from rest, with the initial
  power 0.35 and angle 0, it opens shot 1 and adds the force (0.0042, 0) to the cue ball.
\<close>

theorem C6_fire_witness:
  "tryShoot (threeBalls (1, 0) (300, 300) (400, 400)) = threeBalls (1, 0) (300, 300) (400, 400) \<and>
   shotsTaken (tryShoot (threeBalls (0, 0) (300, 300) (400, 400))) = 1 \<and>
   shotInProgress (tryShoot (threeBalls (0, 0) (300, 300) (400, 400))) \<and>
   heap (tryShoot (threeBalls (0, 0) (300, 300) (400, 400))) 10 =
     Some ((cueBallAt (200, 200) (0, 0))\<lparr> force := (0.0042, 0) \<rparr>)"
  using C6_fire [of "threeBalls (1, 0) (300, 300) (400, 400)"]
    C6_fire [of "threeBalls (0, 0) (300, 300) (400, 400)" 10 "cueBallAt (200, 200) (0, 0)"]
    threeBalls_resting threeBalls_still threeBalls_moving
  by (simp add: threeBalls_def initialState_def cueBallAt_def)

text \<open>
  C10. When the larger of the cue ball's two velocity components is exactly 0.08 in
  magnitude, the moving test (strictly above 0.08) is false for it and the resting test
  (both strictly below 0.08) is false too, so the fire command returns the state
  unchanged.
\<close>

theorem C10_threshold:
  assumes "cueBall s = Some c" and "heap s c = Some cb"
    and "max \<bar>fst (velocity cb)\<bar> \<bar>snd (velocity cb)\<bar> = 0.08"
  shows "\<not> ballIsMoving (Some cb) \<and> \<not> isCueBallResting s \<and> tryShoot s = s"
proof -
  from assms(3) have le: "\<bar>fst (velocity cb)\<bar> \<le> 0.08" "\<bar>snd (velocity cb)\<bar> \<le> 0.08"
    and one: "\<bar>fst (velocity cb)\<bar> = 0.08 \<or> \<bar>snd (velocity cb)\<bar> = 0.08"
    by (auto simp: max_def split: if_splits)
  from le have "\<not> ballIsMoving (Some cb)"
    by (simp add: ballIsMoving_def)
  moreover from one have nr: "\<not> isCueBallResting s"
    using assms(1,2) by (auto simp: isCueBallResting_def cueObj_def)
  moreover from nr have "tryShoot s = s"
    using assms(1,2) by (simp add: tryShoot_def)
  ultimately show ?thesis by blast
qed

text \<open>
  A cue ball with velocity (0.08, 0) on a table where nothing else moves: no ball counts
  as moving, the cue ball does not count as resting, and the fire command is ignored.
\<close>

theorem C10_threshold_witness:
  "\<not> areAnyBallsMoving (threeBalls (0.08, 0) (300, 300) (400, 400)) \<and>
   \<not> ballIsMoving (Some (cueBallAt (200, 200) (0.08, 0))) \<and>
   \<not> isCueBallResting (threeBalls (0.08, 0) (300, 300) (400, 400)) \<and>
   tryShoot (threeBalls (0.08, 0) (300, 300) (400, 400)) = threeBalls (0.08, 0) (300, 300) (400, 400)"
  using C10_threshold [of "threeBalls (0.08, 0) (300, 300) (400, 400)" 10 "cueBallAt (200, 200) (0.08, 0)"]
    threeBalls_threshold_still
  by (simp add: threeBalls_def initialState_def cueBallAt_def)

section \<open>Potting a ball\<close>

lemma potBall_None: "heap s a = None \<Longrightarrow> potBall a p s = s"
  by (simp add: potBall_def)

lemma potBall_heap:
  "heap s a = Some b \<Longrightarrow> heap (potBall a p s) = (heap s)(a \<mapsto> b\<lparr> potted := True \<rparr>)"
  by (simp add: potBall_def Let_def)

lemma potBall_world:
  "heap s a = Some b \<Longrightarrow> world (potBall a p s) = world s - {a}"
  by (simp add: potBall_def Let_def)

lemma potBall_pocketEffects:
  "heap s a = Some b \<Longrightarrow>
   pocketEffects (potBall a p s) = pocketEffects s @ [\<lparr> effPos = ppos p, effT = 0, effDuration = 18 \<rparr>]"
  by (simp add: potBall_def Let_def)

lemma potBall_frame:
  "shotInProgress (potBall a p s) = shotInProgress s"
  "shotsTaken (potBall a p s) = shotsTaken s"
  "shotLog (potBall a p s) = shotLog s"
  "reds (potBall a p s) = reds s"
  "colours (potBall a p s) = colours s"
  "pockets (potBall a p s) = pockets s"
  "tbl (potBall a p s) = tbl s"
  by (simp_all add: potBall_def Let_def split: option.splits)

lemma potBall_cueBall:
  "heap s a = Some b \<Longrightarrow> cueBall (potBall a p s) = (if isCue b then None else cueBall s)"
  by (simp add: potBall_def Let_def)

lemma potBall_foul:
  "heap s a = Some b \<Longrightarrow>
   shotFoulThisShot (potBall a p s) = (shotFoulThisShot s \<or> (shotInProgress s \<and> isCue b))"
  by (auto simp add: potBall_def Let_def)

lemma potBall_potted:
  "heap s a = Some b \<Longrightarrow>
   shotPottedThisShot (potBall a p s) =
     (if shotInProgress s \<and> \<not> isCue b then shotPottedThisShot s @ [(bid b, colour b)]
      else shotPottedThisShot s)"
  by (simp add: potBall_def Let_def)

lemma potBall_gameOver:
  "heap s a = Some b \<Longrightarrow>
   gameOver (potBall a p s) =
     (gameOver s \<or>
      (\<not> isCue b \<and> bid b = Named ''black'' \<and> reds s \<noteq> [] \<and>
       list_all (\<lambda>r. r = a \<or> (case heap s r of None \<Rightarrow> False | Some rb \<Rightarrow> potted rb)) (reds s)))"
  by (auto simp add: potBall_def Let_def list_all_iff split: option.splits)

lemma noReds_heap: "heap noReds 12 = Some (blackBallAt (400, 400))" "reds noReds = []"
  "\<not> gameOver noReds"
  by (simp_all add: noReds_def threeBalls_def initialState_def)

text \<open>
  C4 (as stated). On a table whose list of reds is empty, every red ball is potted
  (there is none), yet potting the black does not end the frame: the code asks for at
  least one red, \<^verbatim>\<open>reds.length > 0\<close>, before it looks at the potted flags.
\<close>

theorem C4_frame_over_counterexample:
  "heap noReds 12 = Some (blackBallAt (400, 400)) \<and>
   bid (blackBallAt (400, 400)) = Named ''black'' \<and>
   list_all (\<lambda>r. case heap noReds r of None \<Rightarrow> False | Some rb \<Rightarrow> potted rb) (reds noReds) \<and>
   \<not> gameOver (potBall 12 cornerPocket noReds)"
  by (simp add: noReds_heap potBall_gameOver) (simp add: blackBallAt_def)

text \<open>
  C4 (amended). A call of \<^verbatim>\<open>potBall\<close> turns the frame-over flag on exactly when the
  ball is not the cue ball, its id is \<^verbatim>\<open>'black'\<close>, the list of reds is not empty and
  every red in it is marked potted at that moment (the ball being potted counts as
  potted); otherwise the flag keeps its value.
\<close>

theorem C4_frame_over:
  "gameOver (potBall a p s) =
     (gameOver s \<or>
      (case heap s a of
         None \<Rightarrow> False
       | Some b \<Rightarrow>
           \<not> isCue b \<and> bid b = Named ''black'' \<and> reds s \<noteq> [] \<and>
           list_all (\<lambda>r. r = a \<or> (case heap s r of None \<Rightarrow> False | Some rb \<Rightarrow> potted rb)) (reds s)))"
  by (cases "heap s a") (simp_all add: potBall_None potBall_gameOver)

lemma tb_heap:
  "heap (threeBalls v r k) 10 = Some (cueBallAt (200, 200) v)"
  "heap (threeBalls v r k) 11 = Some (redBallAt r)"
  "heap (threeBalls v r k) 12 = Some (blackBallAt k)"
  "reds (threeBalls v r k) = [11]"
  "colours (threeBalls v r k) = [12]"
  "cueBall (threeBalls v r k) = Some 10"
  "gameOver (threeBalls v r k) = False"
  "shotLog (threeBalls v r k) = []"
  "shotsTaken (threeBalls v r k) = 0"
  by (simp_all add: threeBalls_def initialState_def)

text \<open>
  With the one red potted first, potting the black ends the frame; potting the black
  while the red is live, or potting the red, does not.
\<close>

theorem C4_frame_over_witness:
  "gameOver (potBall 12 cornerPocket (potBall 11 cornerPocket (threeBalls (0, 0) (300, 300) (400, 400)))) \<and>
   \<not> gameOver (potBall 12 cornerPocket (threeBalls (0, 0) (300, 300) (400, 400))) \<and>
   \<not> gameOver (potBall 11 cornerPocket (threeBalls (0, 0) (300, 300) (400, 400)))"
  using C4_frame_over [of 12 cornerPocket "potBall 11 cornerPocket (threeBalls (0, 0) (300, 300) (400, 400))"]
    C4_frame_over [of 12 cornerPocket "threeBalls (0, 0) (300, 300) (400, 400)"]
    C4_frame_over [of 11 cornerPocket "threeBalls (0, 0) (300, 300) (400, 400)"]
  by (simp add: tb_heap potBall_heap potBall_frame blackBallAt_def redBallAt_def)

section \<open>Classifying a shot\<close>

lemma moveBodies_frame:
  "shotInProgress (moveBodies f s) = shotInProgress s"
  "shotsTaken (moveBodies f s) = shotsTaken s"
  "shotLog (moveBodies f s) = shotLog s"
  "shotFoulThisShot (moveBodies f s) = shotFoulThisShot s"
  "shotPottedThisShot (moveBodies f s) = shotPottedThisShot s"
  by (simp_all add: moveBodies_def)

lemma event_frame:
  "shotInProgress (applyEvent e s) = shotInProgress s"
  "shotsTaken (applyEvent e s) = shotsTaken s"
  "shotLog (applyEvent e s) = shotLog s"
  by (cases e; simp add: potBall_frame moveBodies_frame)+

lemma event_foul:
  "shotInProgress s \<Longrightarrow> shotFoulThisShot (applyEvent e s) = (shotFoulThisShot s \<or> potsCue e s)"
  by (cases e) (auto simp: potBall_foul potBall_None moveBodies_frame split: option.splits)

lemma event_potted:
  "shotInProgress s \<Longrightarrow> shotPottedThisShot (applyEvent e s) = shotPottedThisShot s @ pottedBy e s"
  by (cases e) (auto simp: potBall_potted potBall_None moveBodies_frame split: option.splits)

lemma run_shot:
  "shotInProgress s \<Longrightarrow>
     shotInProgress (run es s) \<and> shotsTaken (run es s) = shotsTaken s \<and>
     shotLog (run es s) = shotLog s \<and>
     shotFoulThisShot (run es s) = (shotFoulThisShot s \<or> cuePottedDuring es s) \<and>
     shotPottedThisShot (run es s) = shotPottedThisShot s @ pottedDuring es s"
proof (induction es arbitrary: s)
  case Nil
  then show ?case by simp
next
  case (Cons e es)
  from Cons.prems have "shotInProgress (applyEvent e s)"
    by (simp add: event_frame)
  from Cons.IH [OF this] Cons.prems show ?case
    by (simp add: event_frame event_foul event_potted)
qed

text \<open>
  C3. A fire command is accepted in \<open>s0\<close>; then the engine moves bodies and balls are
  potted, in any order and number (\<open>es\<close>); then nothing moves. The closing call appends
  exactly one entry to the shot log (which keeps its last 60 entries) and closes the
  shot. The entry's outcome is Foul when a cue ball was potted during the run, whatever
  else was potted; otherwise Potted when some other ball was potted; otherwise Miss.
\<close>

theorem C3_classification:
  assumes fire: "cueObj s0 \<noteq> None" "isCueBallResting s0" "\<not> areAnyBallsMoving s0"
    and settled: "\<not> areAnyBallsMoving (run es (tryShoot s0))"
  shows "shotLog (finalizeShotIfSettled (run es (tryShoot s0))) =
           (let entry = \<lparr> shotN = shotsTaken s0 + 1,
                           outcome = (if cuePottedDuring es (tryShoot s0) then ''Foul''
                                      else if pottedDuring es (tryShoot s0) \<noteq> [] then ''Potted''
                                      else ''Miss''),
                           pottedBalls = pottedDuring es (tryShoot s0) \<rparr>;
                l = shotLog s0 @ [entry]
            in if length l > 60 then drop (length l - 60) l else l) \<and>
         \<not> shotInProgress (finalizeShotIfSettled (run es (tryShoot s0)))"
proof -
  from fire obtain c cb where c: "cueBall s0 = Some c" "heap s0 c = Some cb"
    by (auto simp: cueObj_def split: option.splits)
  note t = tryShoot_accepted [OF c fire(2,3)]
  have open_shot: "shotInProgress (tryShoot s0)" "shotsTaken (tryShoot s0) = shotsTaken s0 + 1"
    "shotLog (tryShoot s0) = shotLog s0" "shotFoulThisShot (tryShoot s0) = False"
    "shotPottedThisShot (tryShoot s0) = []"
    by (simp_all add: t)
  from run_shot [OF open_shot(1), of es] open_shot
  have r: "shotInProgress (run es (tryShoot s0))"
    "shotsTaken (run es (tryShoot s0)) = shotsTaken s0 + 1"
    "shotLog (run es (tryShoot s0)) = shotLog s0"
    "shotFoulThisShot (run es (tryShoot s0)) = cuePottedDuring es (tryShoot s0)"
    "shotPottedThisShot (run es (tryShoot s0)) = pottedDuring es (tryShoot s0)"
    by simp_all
  show ?thesis
    using settled r by (simp add: finalizeShotIfSettled_def Let_def)
qed


lemma tb_cueObj: "cueObj (threeBalls v r k) = Some (cueBallAt (200, 200) v)"
  by (simp add: cueObj_def tb_heap)

lemma tb_fired:
  "tryShoot (threeBalls (0, 0) (300, 300) (400, 400)) =
     (threeBalls (0, 0) (300, 300) (400, 400))
       \<lparr> shotsTaken := 1, shotInProgress := True, shotPottedThisShot := [],
         shotFoulThisShot := False,
         heap := (heap (threeBalls (0, 0) (300, 300) (400, 400)))
                   (10 \<mapsto> (cueBallAt (200, 200) (0, 0))\<lparr> force := (0.0042, 0) \<rparr>),
         impactEffects := [\<lparr> effPos = (200, 200), effT = 0, effDuration = 14 \<rparr>] \<rparr>"
  by (simp add: tryShoot_accepted [OF tb_heap(6) tb_heap(1) threeBalls_resting threeBalls_still])
     (simp add: threeBalls_def initialState_def cueBallAt_def)

lemma tb_fired_heap:
  "heap (tryShoot (threeBalls (0, 0) (300, 300) (400, 400))) 10 =
     Some ((cueBallAt (200, 200) (0, 0))\<lparr> force := (0.0042, 0) \<rparr>)"
  "heap (tryShoot (threeBalls (0, 0) (300, 300) (400, 400))) 11 = Some (redBallAt (300, 300))"
  "heap (tryShoot (threeBalls (0, 0) (300, 300) (400, 400))) 12 = Some (blackBallAt (400, 400))"
  "reds (tryShoot (threeBalls (0, 0) (300, 300) (400, 400))) = [11]"
  "colours (tryShoot (threeBalls (0, 0) (300, 300) (400, 400))) = [12]"
  "cueBall (tryShoot (threeBalls (0, 0) (300, 300) (400, 400))) = Some 10"
  "shotLog (tryShoot (threeBalls (0, 0) (300, 300) (400, 400))) = []"
  by (simp_all add: tb_fired tb_heap)

lemma tb_settled_red:
  "\<not> areAnyBallsMoving (run [Pot 11 cornerPocket] (tryShoot (threeBalls (0, 0) (300, 300) (400, 400))))"
  by (simp add: areAnyBallsMoving_def potBall_frame potBall_cueBall potBall_heap tb_fired_heap
      allOf_simps ballIsMoving_def redBallAt_def blackBallAt_def cueBallAt_def)

lemma tb_settled_cue:
  "\<not> areAnyBallsMoving (run [Pot 11 cornerPocket, Pot 10 cornerPocket] (tryShoot (threeBalls (0, 0) (300, 300) (400, 400))))"
  by (simp add: areAnyBallsMoving_def potBall_frame potBall_cueBall potBall_heap tb_fired_heap
      allOf_simps ballIsMoving_def redBallAt_def blackBallAt_def cueBallAt_def)

lemma tb_settled_none:
  "\<not> areAnyBallsMoving (run [] (tryShoot (threeBalls (0, 0) (300, 300) (400, 400))))"
  by (simp add: areAnyBallsMoving_def tb_fired_heap
      allOf_simps ballIsMoving_def redBallAt_def blackBallAt_def cueBallAt_def)

text \<open>
  Three shots on the three-ball table: nothing potted (Miss), the red potted (Potted),
  the red and then the cue ball potted (Foul).
\<close>

theorem C3_classification_witness:
  "shotLog (finalizeShotIfSettled (run [] (tryShoot (threeBalls (0, 0) (300, 300) (400, 400))))) =
     [\<lparr> shotN = 1, outcome = ''Miss'', pottedBalls = [] \<rparr>] \<and>
   shotLog (finalizeShotIfSettled (run [Pot 11 cornerPocket] (tryShoot (threeBalls (0, 0) (300, 300) (400, 400))))) =
     [\<lparr> shotN = 1, outcome = ''Potted'', pottedBalls = [(Anon 8, ''#c1121f'')] \<rparr>] \<and>
   shotLog (finalizeShotIfSettled (run [Pot 11 cornerPocket, Pot 10 cornerPocket]
       (tryShoot (threeBalls (0, 0) (300, 300) (400, 400))))) =
     [\<lparr> shotN = 1, outcome = ''Foul'', pottedBalls = [(Anon 8, ''#c1121f'')] \<rparr>]"
  using C3_classification [of "threeBalls (0, 0) (300, 300) (400, 400)" "[]"]
    C3_classification [of "threeBalls (0, 0) (300, 300) (400, 400)" "[Pot 11 cornerPocket]"]
    C3_classification [of "threeBalls (0, 0) (300, 300) (400, 400)" "[Pot 11 cornerPocket, Pot 10 cornerPocket]"]
    threeBalls_resting threeBalls_still tb_settled_red tb_settled_cue tb_settled_none
  by (simp add: tb_cueObj tb_fired_heap potBall_heap tb_heap redBallAt_def cueBallAt_def)

section \<open>The potting scan\<close>

lemma firstPocket_Some_iff:
  "(firstPocket pos pr ps \<noteq> None) =
     list_ex (\<lambda>p. dist_p5 (fst pos) (snd pos) (fst (ppos p)) (snd (ppos p)) < pr) ps"
  by (induction ps) auto

lemma capturable_potBall:
  assumes "heap s a = Some b"
  shows "capturable pr (potBall a p s) x = (x \<noteq> a \<and> capturable pr s x)"
  using assms by (auto simp: capturable_def potBall_heap potBall_frame split: option.splits)

lemma loop_skip:
  "\<not> capturable pr s a \<Longrightarrow> handlePottingLoop pr (a # as) s = handlePottingLoop pr as s"
  by (auto simp: capturable_def firstPocket_Some_iff [symmetric] split: option.splits)

lemma loop_pot:
  "capturable pr s a \<Longrightarrow>
   \<exists>p b. heap s a = Some b \<and> \<not> potted b \<and> firstPocket (position b) pr (pockets s) = Some p \<and>
         handlePottingLoop pr (a # as) s = handlePottingLoop pr as (potBall a p s)"
  by (auto simp: capturable_def firstPocket_Some_iff [symmetric] split: option.splits)

lemma loop_frame:
  "pockets (handlePottingLoop pr as s) = pockets s"
  "tbl (handlePottingLoop pr as s) = tbl s"
  "reds (handlePottingLoop pr as s) = reds s"
  "colours (handlePottingLoop pr as s) = colours s"
  by (induction pr as s rule: handlePottingLoop.induct;
      simp add: potBall_frame split: option.splits)+

lemma loop_potted_kept:
  "heap s x = Some b \<Longrightarrow> potted b \<Longrightarrow> heap (handlePottingLoop pr as s) x = Some b"
proof (induction as arbitrary: s)
  case Nil
  then show ?case by simp
next
  case (Cons a as)
  show ?case
  proof (cases "capturable pr s a")
    case False
    show ?thesis unfolding loop_skip [OF False] using Cons by simp
  next
    case True
    from loop_pot [OF True, of as] obtain p b' where
      b': "heap s a = Some b'" "\<not> potted b'"
      and step: "handlePottingLoop pr (a # as) s = handlePottingLoop pr as (potBall a p s)"
      by blast
    from b' Cons.prems have "x \<noteq> a" by auto
    then have "heap (potBall a p s) x = Some b"
      using b' Cons.prems by (simp add: potBall_heap)
    from Cons.IH [OF this Cons.prems(2)] step show ?thesis by simp
  qed
qed

lemma loop_world_subset: "world (handlePottingLoop pr as s) \<subseteq> world s"
proof (induction as arbitrary: s)
  case Nil
  then show ?case by simp
next
  case (Cons a as)
  show ?case
  proof (cases "capturable pr s a")
    case False
    show ?thesis unfolding loop_skip [OF False] by (rule Cons.IH)
  next
    case True
    from loop_pot [OF True, of as] obtain p b' where
      b': "heap s a = Some b'"
      and step: "handlePottingLoop pr (a # as) s = handlePottingLoop pr as (potBall a p s)"
      by blast
    have "world (handlePottingLoop pr as (potBall a p s)) \<subseteq> world (potBall a p s)"
      by (rule Cons.IH)
    then show ?thesis using step b' by (auto simp: potBall_world)
  qed
qed

lemma loop_pots:
  "a \<in> set as \<Longrightarrow> capturable pr s a \<Longrightarrow>
   \<exists>b. heap s a = Some b \<and> heap (handlePottingLoop pr as s) a = Some (b\<lparr> potted := True \<rparr>) \<and>
       a \<notin> world (handlePottingLoop pr as s)"
proof (induction as arbitrary: s)
  case Nil
  then show ?case by simp
next
  case (Cons a' as)
  show ?case
  proof (cases "capturable pr s a'")
    case False
    with Cons.prems have "a \<in> set as" by auto
    from Cons.IH [OF this Cons.prems(2)] show ?thesis unfolding loop_skip [OF False] .
  next
    case True
    from loop_pot [OF True, of as] obtain p b' where
      b': "heap s a' = Some b'" "\<not> potted b'"
      and step: "handlePottingLoop pr (a' # as) s = handlePottingLoop pr as (potBall a' p s)"
      by blast
    show ?thesis
    proof (cases "a = a'")
      case True
      have h: "heap (potBall a' p s) a' = Some (b'\<lparr> potted := True \<rparr>)"
        using b' by (simp add: potBall_heap)
      have "heap (handlePottingLoop pr as (potBall a' p s)) a' = Some (b'\<lparr> potted := True \<rparr>)"
        by (rule loop_potted_kept [OF h]) simp
      moreover have "a' \<notin> world (potBall a' p s)"
        using b' by (simp add: potBall_world)
      then have "a' \<notin> world (handlePottingLoop pr as (potBall a' p s))"
        using loop_world_subset by blast
      ultimately show ?thesis using True b' step by simp
    next
      case False
      then have c: "capturable pr (potBall a' p s) a"
        using Cons.prems(2) b' by (simp add: capturable_potBall)
      from False Cons.prems have "a \<in> set as" by auto
      from Cons.IH [OF this c] obtain b where
        "heap (potBall a' p s) a = Some b"
        "heap (handlePottingLoop pr as (potBall a' p s)) a = Some (b\<lparr> potted := True \<rparr>)"
        "a \<notin> world (handlePottingLoop pr as (potBall a' p s))"
        by blast
      then show ?thesis using False b' step by (simp add: potBall_heap)
    qed
  qed
qed

lemma loop_count:
  "length (pocketEffects (handlePottingLoop pr as s)) =
     length (pocketEffects s) + card {a \<in> set as. capturable pr s a}"
proof (induction as arbitrary: s)
  case Nil
  then show ?case by simp
next
  case (Cons a as)
  show ?case
  proof (cases "capturable pr s a")
    case False
    then have "{x \<in> set (a # as). capturable pr s x} = {x \<in> set as. capturable pr s x}"
      by auto
    with Cons.IH [of s] show ?thesis unfolding loop_skip [OF False] by simp
  next
    case True
    from loop_pot [OF True, of as] obtain p b' where
      b': "heap s a = Some b'"
      and step: "handlePottingLoop pr (a # as) s = handlePottingLoop pr as (potBall a p s)"
      by blast
    have "{x \<in> set (a # as). capturable pr s x} =
            insert a {x \<in> set as. capturable pr (potBall a p s) x}"
      using True b' by (auto simp: capturable_potBall)
    moreover have "a \<notin> {x \<in> set as. capturable pr (potBall a p s) x}"
      using b' by (simp add: capturable_potBall)
    ultimately have "card {x \<in> set (a # as). capturable pr s x} =
        Suc (card {x \<in> set as. capturable pr (potBall a p s) x})"
      by simp
    with Cons.IH [of "potBall a p s"] step b' show ?thesis
      by (simp add: potBall_pocketEffects)
  qed
qed

lemma loop_nothing:
  "\<forall>a \<in> set as. \<not> capturable pr s a \<Longrightarrow> handlePottingLoop pr as s = s"
  by (induction as) (simp_all add: loop_skip del: handlePottingLoop.simps(2))

lemma loop_leaves_none:
  "x \<in> set as \<Longrightarrow> \<not> capturable pr (handlePottingLoop pr as s) x"
proof (induction as arbitrary: s)
  case Nil
  then show ?case by simp
next
  case (Cons a as)
  have kept: "\<not> capturable pr s' y \<Longrightarrow> \<not> capturable pr (handlePottingLoop pr bs s') y" for s' y bs
  proof (induction bs arbitrary: s')
    case Nil
    then show ?case by simp
  next
    case (Cons c cs)
    show ?case
    proof (cases "capturable pr s' c")
      case False
      show ?thesis unfolding loop_skip [OF False] using Cons by simp
    next
      case True
      from loop_pot [OF True, of cs] obtain p b' where
        b': "heap s' c = Some b'"
        and step: "handlePottingLoop pr (c # cs) s' = handlePottingLoop pr cs (potBall c p s')"
        by blast
      from Cons.prems b' have "\<not> capturable pr (potBall c p s') y"
        by (simp add: capturable_potBall)
      from Cons.IH [OF this] step show ?thesis by simp
    qed
  qed
  show ?case
  proof (cases "capturable pr s a")
    case False
    show ?thesis
    proof (cases "x = a")
      case True
      with \<open>\<not> capturable pr s a\<close> kept [of s a "a # as"] show ?thesis by blast
    next
      case False
      with Cons.prems have "x \<in> set as" by auto
      from Cons.IH [OF this, of s] show ?thesis
        unfolding loop_skip [OF \<open>\<not> capturable pr s a\<close>] .
    qed
  next
    case True
    from loop_pot [OF True, of as] obtain p b' where
      b': "heap s a = Some b'"
      and step: "handlePottingLoop pr (a # as) s = handlePottingLoop pr as (potBall a p s)"
      by blast
    show ?thesis
    proof (cases "x = a")
      case True
      have "\<not> capturable pr (potBall a p s) a"
        using b' by (simp add: capturable_potBall)
      from kept [OF this, of as] step True show ?thesis by simp
    next
      case False
      with Cons.prems have "x \<in> set as" by auto
      from Cons.IH [OF this, of "potBall a p s"] step show ?thesis by simp
    qed
  qed
qed

lemma loop_cueBall:
  "cueBall (handlePottingLoop pr as s) = cueBall s \<or> cueBall (handlePottingLoop pr as s) = None"
proof (induction as arbitrary: s)
  case Nil
  then show ?case by simp
next
  case (Cons a as)
  show ?case
  proof (cases "capturable pr s a")
    case False
    show ?thesis unfolding loop_skip [OF False] by (rule Cons.IH)
  next
    case True
    from loop_pot [OF True, of as] obtain p b' where
      b': "heap s a = Some b'"
      and step: "handlePottingLoop pr (a # as) s = handlePottingLoop pr as (potBall a p s)"
      by blast
    from Cons.IH [of "potBall a p s"] step b' show ?thesis
      by (auto simp: potBall_cueBall split: if_splits)
  qed
qed

lemma allOf_cue_subset:
  "c' = c \<or> c' = None \<Longrightarrow> set (allOf xs ys c') \<subseteq> set (allOf xs ys c)"
  by (auto simp: allOf_def split: option.splits)

lemma handlePotting_idem: "handlePotting (handlePotting s) = handlePotting s"
proof -
  let ?pr = "pocketR (tbl s) * 1.18"
  let ?all = "allOf (reds s) (colours s) (cueBall s)"
  let ?s' = "handlePottingLoop ?pr ?all s"
  have sub: "set (allOf (reds ?s') (colours ?s') (cueBall ?s')) \<subseteq> set ?all"
    using loop_cueBall [of ?pr ?all s] by (simp add: loop_frame allOf_cue_subset)
  have "\<forall>x \<in> set (allOf (reds ?s') (colours ?s') (cueBall ?s')). \<not> capturable ?pr ?s' x"
    using sub loop_leaves_none by blast
  then have "handlePottingLoop ?pr (allOf (reds ?s') (colours ?s') (cueBall ?s')) ?s' = ?s'"
    by (rule loop_nothing)
  then show ?thesis
    by (simp add: handlePotting_def loop_frame)
qed

lemma capturable_iff:
  "capturable pr s a =
     (\<exists>b. heap s a = Some b \<and> \<not> potted b \<and>
          (\<exists>p \<in> set (pockets s).
             dist_p5 (fst (position b)) (snd (position b)) (fst (ppos p)) (snd (ppos p)) < pr))"
  by (auto simp: capturable_def list_ex_iff split: option.splits)

lemma potted_kept_potBall:
  "heap s a = Some b \<Longrightarrow> potted b \<Longrightarrow> \<exists>b'. heap (potBall x p s) a = Some b' \<and> potted b'"
  by (cases "heap s x") (auto simp: potBall_None potBall_heap)

lemma potted_kept_moveBodies:
  "heap s a = Some b \<Longrightarrow> potted b \<Longrightarrow> \<exists>b'. heap (moveBodies f s) a = Some b' \<and> potted b'"
  by (simp add: moveBodies_def)

lemma potted_kept_tryShoot:
  "heap s a = Some b \<Longrightarrow> potted b \<Longrightarrow> \<exists>b'. heap (tryShoot s) a = Some b' \<and> potted b'"
  by (auto simp: tryShoot_def applyForce_def Let_def split: option.splits)

lemma potted_kept_finalize:
  "heap (finalizeShotIfSettled s) = heap s"
  by (simp add: finalizeShotIfSettled_def Let_def)

text \<open>
  C5. Let \<open>pr\<close> be the capture radius, 1.18 times the pocket radius. A scan marks every
  live ball of the table whose centre is closer than \<open>pr\<close> to some pocket centre as
  potted and removes its body from the world. It pots each such ball once and nothing
  else: the number of pocket effects, one per call of \<^verbatim>\<open>potBall\<close>, grows by the number
  of such balls. A ball that is already marked potted is left untouched by a scan, and
  stays potted under \<^verbatim>\<open>potBall\<close>, an engine step, a fire command and the closing of a
  shot. A second scan right after a scan changes nothing.
\<close>

theorem C5_potting:
  "(a \<in> set (allOf (reds s) (colours s) (cueBall s)) \<and> heap s a = Some b \<and> \<not> potted b \<and>
    p \<in> set (pockets s) \<and>
    dist_p5 (fst (position b)) (snd (position b)) (fst (ppos p)) (snd (ppos p))
      < pocketR (tbl s) * 1.18 \<longrightarrow>
      heap (handlePotting s) a = Some (b\<lparr> potted := True \<rparr>) \<and> a \<notin> world (handlePotting s)) \<and>
   length (pocketEffects (handlePotting s)) =
     length (pocketEffects s) +
     card {x \<in> set (allOf (reds s) (colours s) (cueBall s)). capturable (pocketR (tbl s) * 1.18) s x} \<and>
   (heap s a = Some b \<and> potted b \<longrightarrow>
      heap (handlePotting s) a = Some b \<and>
      (\<exists>b'. heap (potBall x q s) a = Some b' \<and> potted b') \<and>
      (\<exists>b'. heap (moveBodies f s) a = Some b' \<and> potted b') \<and>
      (\<exists>b'. heap (tryShoot s) a = Some b' \<and> potted b') \<and>
      heap (finalizeShotIfSettled s) a = Some b) \<and>
   handlePotting (handlePotting s) = handlePotting s"
proof (intro conjI impI)
  assume h: "a \<in> set (allOf (reds s) (colours s) (cueBall s)) \<and> heap s a = Some b \<and> \<not> potted b \<and>
    p \<in> set (pockets s) \<and>
    dist_p5 (fst (position b)) (snd (position b)) (fst (ppos p)) (snd (ppos p))
      < pocketR (tbl s) * 1.18"
  then have "capturable (pocketR (tbl s) * 1.18) s a"
    unfolding capturable_iff by blast
  from loop_pots [OF _ this, of "allOf (reds s) (colours s) (cueBall s)"] h
  show "heap (handlePotting s) a = Some (b\<lparr> potted := True \<rparr>)" "a \<notin> world (handlePotting s)"
    by (auto simp: handlePotting_def)
next
  show "length (pocketEffects (handlePotting s)) =
     length (pocketEffects s) +
     card {x \<in> set (allOf (reds s) (colours s) (cueBall s)). capturable (pocketR (tbl s) * 1.18) s x}"
    unfolding handlePotting_def by (rule loop_count)
next
  assume h: "heap s a = Some b \<and> potted b"
  then show "heap (handlePotting s) a = Some b"
    unfolding handlePotting_def using loop_potted_kept by blast
  from h show "\<exists>b'. heap (potBall x q s) a = Some b' \<and> potted b'"
    using potted_kept_potBall by blast
  from h show "\<exists>b'. heap (moveBodies f s) a = Some b' \<and> potted b'"
    using potted_kept_moveBodies by blast
  from h show "\<exists>b'. heap (tryShoot s) a = Some b' \<and> potted b'"
    using potted_kept_tryShoot by blast
  from h show "heap (finalizeShotIfSettled s) a = Some b"
    by (simp add: potted_kept_finalize)
next
  show "handlePotting (handlePotting s) = handlePotting s"
    by (rule handlePotting_idem)
qed

lemma surface_1196:
  "rx (surface (rebuildTableGeometry 1196 720)) = 40"
  "ry (surface (rebuildTableGeometry 1196 720)) = 159"
  unfolding rebuildTableGeometry_def Let_def
  by (simp_all only: table.simps rect.simps)
     (simp_all add: topBarH_def bottomBarH_def sidePad_def panelW_def panelGap_def)

lemma cornerPocket_first:
  "buildPocketList (rebuildTableGeometry 1196 720) ! 0 = cornerPocket"
  by (simp add: buildPocketList_def Let_def cornerPocket_def surface_1196 geometry_900)

lemma cornerPocket_in: "cornerPocket \<in> set (pockets (threeBalls v r k))"
proof -
  have "buildPocketList (rebuildTableGeometry 1196 720) ! 0
          \<in> set (buildPocketList (rebuildTableGeometry 1196 720))"
    by (rule nth_mem) (simp add: buildPocketList_def Let_def)
  then show ?thesis
    by (simp add: cornerPocket_first threeBalls_def initialState_def)
qed

text \<open>
  A red lying on the centre of the top-left pocket is potted by a scan, leaves the world,
  and is still potted after a second scan.
\<close>

theorem C5_potting_witness:
  "heap (handlePotting (threeBalls (0, 0) (41.875, 160.875) (400, 400))) 11 =
     Some ((redBallAt (41.875, 160.875))\<lparr> potted := True \<rparr>) \<and>
   11 \<notin> world (handlePotting (threeBalls (0, 0) (41.875, 160.875) (400, 400))) \<and>
   heap (handlePotting (handlePotting (threeBalls (0, 0) (41.875, 160.875) (400, 400)))) 11 =
     Some ((redBallAt (41.875, 160.875))\<lparr> potted := True \<rparr>)"
  using C5_potting [of 11 "threeBalls (0, 0) (41.875, 160.875) (400, 400)"
      "redBallAt (41.875, 160.875)" cornerPocket]
    C5_potting [of 11 "handlePotting (threeBalls (0, 0) (41.875, 160.875) (400, 400))"
      "(redBallAt (41.875, 160.875))\<lparr> potted := True \<rparr>" cornerPocket]
    cornerPocket_in [of "(0, 0)" "(41.875, 160.875)" "(400, 400)"]
  by (simp add: tb_heap allOf_simps dist_p5_def cornerPocket_def redBallAt_def geometry_900)
     (simp add: threeBalls_def initialState_def geometry_900)

text \<open>
  A scan is a run of \<^verbatim>\<open>potBall\<close> events, so the classification of a shot above
  covers every sequence of engine steps and scans between the fire command and the frame
  that closes the shot.
\<close>

lemma scan_is_run:
  "\<exists>es. handlePottingLoop pr as s = run es s \<and> (\<forall>e \<in> set es. \<exists>a p. e = Pot a p)"
proof (induction as arbitrary: s)
  case Nil
  have "handlePottingLoop pr [] s = run [] s" by simp
  then show ?case by fastforce
next
  case (Cons a as)
  show ?case
  proof (cases "capturable pr s a")
    case False
    from Cons.IH [of s] show ?thesis unfolding loop_skip [OF False] .
  next
    case True
    from loop_pot [OF True, of as] obtain p where
      step: "handlePottingLoop pr (a # as) s = handlePottingLoop pr as (potBall a p s)"
      by blast
    from Cons.IH [of "potBall a p s"] obtain es where
      es: "handlePottingLoop pr as (potBall a p s) = run es (potBall a p s)"
        "\<forall>e \<in> set es. \<exists>a p. e = Pot a p"
      by blast
    have "handlePottingLoop pr (a # as) s = run (Pot a p # es) s"
      using step es(1) by simp
    moreover have "\<forall>e \<in> set (Pot a p # es). \<exists>a p. e = Pot a p"
      using es(2) by simp
    ultimately show ?thesis by blast
  qed
qed

section \<open>Trajectory predictor\<close>

lemma candidate_normal:
  "\<forall>w. best = Some w \<longrightarrow> P (hitN w) \<Longrightarrow> P (hitN h) \<Longrightarrow>
   \<forall>w. candidate t c lo hi h best = Some w \<longrightarrow> P (hitN w)"
  by (simp add: candidate_def)

lemma rayRectHit_normal_all:
  "\<forall>w. rayRectHit ox oy dx dy minX minY maxX maxY = Some w \<longrightarrow>
     hitN w \<in> {(- 1, 0), (1, 0), (0, - 1), (0, 1)}"
  unfolding rayRectHit_def Let_def
  by (cases "\<bar>dx\<bar> > 0.000001"; cases "\<bar>dy\<bar> > 0.000001")
     (simp_all only: if_True if_False, ((intro candidate_normal)?; simp)+)

lemma hit_example:
  "rayRectHit 0 0 1 0 (- 1) (- 1) 1 1 = Some \<lparr> hitT = 1, hitX = 1, hitY = 0, hitN = (1, 0) \<rparr>"
  by (simp add: rayRectHit_def Let_def belowBest_def candidate_def)

text \<open>
  C8. Whenever \<^verbatim>\<open>rayRectHit\<close> reports a wall hit with normal \<open>n\<close>, the direction
  \<open>d' = d - 2 (d \<sqdot> n) n\<close> that the predictor continues with has normal component
  \<open>d' \<sqdot> n = - (d \<sqdot> n)\<close> and the same tangential component as \<open>d\<close>, both as the
  scalar product with the tangent \<open>(- n.y, n.x)\<close> and as the vector \<open>d - (d \<sqdot> n) n\<close>.
  This holds for every direction, unit or not.
\<close>

theorem C8_reflection:
  assumes "rayRectHit ox oy dx dy minX minY maxX maxY = Some w"
  shows "(let n = hitN w;
              d' = reflect (dx, dy) n
          in fst d' * fst n + snd d' * snd n = - (dx * fst n + dy * snd n) \<and>
             fst d' * (- snd n) + snd d' * fst n = dx * (- snd n) + dy * fst n \<and>
             (fst d' - (fst d' * fst n + snd d' * snd n) * fst n,
              snd d' - (fst d' * fst n + snd d' * snd n) * snd n) =
             (dx - (dx * fst n + dy * snd n) * fst n,
              dy - (dx * fst n + dy * snd n) * snd n))"
proof -
  from assms rayRectHit_normal_all
  have "hitN w \<in> {(- 1, 0), (1, 0), (0, - 1), (0, 1)}" by blast
  then show ?thesis
    by (auto simp: reflect_def Let_def)
qed

text \<open>
  A ray from the centre of the square \<open>[-1, 1]\<^sup>2\<close> along the x axis hits the right wall,
  whose normal is (1, 0), and comes back along (-1, 0).
\<close>

theorem C8_reflection_witness:
  "rayRectHit 0 0 1 0 (- 1) (- 1) 1 1 = Some \<lparr> hitT = 1, hitX = 1, hitY = 0, hitN = (1, 0) \<rparr> \<and>
   reflect (1, 0) (1, 0) = (- 1, 0)"
  using C8_reflection [OF hit_example] hit_example
  by (simp add: reflect_def Let_def)

subsection \<open>The bounce loop\<close>

lemma predictLoop_stop:
  "\<not> bounce v \<le> maxBounces \<Longrightarrow> predictLoop h ts r bnds v = v"
  by (subst predictLoop.simps) simp

lemma predictLoop_ball:
  assumes "bounce v \<le> maxBounces"
    and "ballBeforeWall
           (bestBallLoop h (fst (rayO v)) (snd (rayO v)) (fst (rayD v)) (snd (rayD v)) r ts None)
           (rayRectHit (fst (rayO v)) (snd (rayO v)) (fst (rayD v)) (snd (rayD v))
              (fst bnds) (fst (snd bnds)) (fst (snd (snd bnds))) (snd (snd (snd bnds))))
         = Some (t, b)"
  shows "predictLoop h ts r bnds v =
     v\<lparr> points := points v @ [(fst (rayO v) + fst (rayD v) * t, snd (rayO v) + snd (rayD v) * t)],
        hitBall := Some b,
        hitPoint := Some (fst (rayO v) + fst (rayD v) * t, snd (rayO v) + snd (rayD v) * t) \<rparr>"
  using assms by (subst predictLoop.simps) (simp add: Let_def)

lemma predictLoop_none:
  assumes "bounce v \<le> maxBounces"
    and "ballBeforeWall
           (bestBallLoop h (fst (rayO v)) (snd (rayO v)) (fst (rayD v)) (snd (rayD v)) r ts None)
           (rayRectHit (fst (rayO v)) (snd (rayO v)) (fst (rayD v)) (snd (rayD v))
              (fst bnds) (fst (snd bnds)) (fst (snd (snd bnds))) (snd (snd (snd bnds))))
         = None"
    and "rayRectHit (fst (rayO v)) (snd (rayO v)) (fst (rayD v)) (snd (rayD v))
           (fst bnds) (fst (snd bnds)) (fst (snd (snd bnds))) (snd (snd (snd bnds))) = None"
  shows "predictLoop h ts r bnds v = v"
  using assms by (subst predictLoop.simps) (simp add: Let_def)

lemma predictLoop_wall:
  assumes "bounce v \<le> maxBounces"
    and "ballBeforeWall
           (bestBallLoop h (fst (rayO v)) (snd (rayO v)) (fst (rayD v)) (snd (rayD v)) r ts None)
           (rayRectHit (fst (rayO v)) (snd (rayO v)) (fst (rayD v)) (snd (rayD v))
              (fst bnds) (fst (snd bnds)) (fst (snd (snd bnds))) (snd (snd (snd bnds))))
         = None"
    and "rayRectHit (fst (rayO v)) (snd (rayO v)) (fst (rayD v)) (snd (rayD v))
           (fst bnds) (fst (snd bnds)) (fst (snd (snd bnds))) (snd (snd (snd bnds))) = Some w"
  shows "predictLoop h ts r bnds v =
     predictLoop h ts r bnds
       (v\<lparr> points := points v @ [(hitX w, hitY w)],
           rayD := reflect (rayD v) (hitN w),
           rayO := (hitX w + fst (reflect (rayD v) (hitN w)) * 0.5,
                    hitY w + snd (reflect (rayD v) (hitN w)) * 0.5),
           bounce := Suc (bounce v) \<rparr>)"
  using assms by (subst predictLoop.simps) (simp add: Let_def)

lemma predictLoop_bounds:
  "n = Suc maxBounces - bounce v \<Longrightarrow> bounce v \<le> Suc maxBounces \<Longrightarrow> hitBall v = None \<Longrightarrow>
     bounce v \<le> bounce (predictLoop h ts r bnds v) \<and>
     bounce (predictLoop h ts r bnds v) \<le> Suc maxBounces \<and>
     (hitBall (predictLoop h ts r bnds v) \<noteq> None \<longrightarrow>
        bounce (predictLoop h ts r bnds v) \<le> maxBounces) \<and>
     length (points (predictLoop h ts r bnds v)) =
       length (points v) + (bounce (predictLoop h ts r bnds v) - bounce v) +
       (if hitBall (predictLoop h ts r bnds v) = None then 0 else 1)"
proof (induction n arbitrary: v)
  case 0
  then have "\<not> bounce v \<le> maxBounces" by simp
  then show ?case using 0 by (simp add: predictLoop_stop)
next
  case (Suc n)
  then have le: "bounce v \<le> maxBounces" by simp
  let ?w = "rayRectHit (fst (rayO v)) (snd (rayO v)) (fst (rayD v)) (snd (rayD v))
           (fst bnds) (fst (snd bnds)) (fst (snd (snd bnds))) (snd (snd (snd bnds)))"
  let ?b = "bestBallLoop h (fst (rayO v)) (snd (rayO v)) (fst (rayD v)) (snd (rayD v)) r ts None"
  show ?case
  proof (cases "ballBeforeWall ?b ?w")
    case (Some tb)
    then obtain t b where "ballBeforeWall ?b ?w = Some (t, b)" by (cases tb) simp
    from predictLoop_ball [OF le this] le show ?thesis by simp
  next
    case None
    note nb = this
    show ?thesis
    proof (cases ?w)
      case None
      from predictLoop_none [OF le nb None] Suc.prems show ?thesis by simp
    next
      case (Some w)
      let ?v' = "v\<lparr> points := points v @ [(hitX w, hitY w)],
           rayD := reflect (rayD v) (hitN w),
           rayO := (hitX w + fst (reflect (rayD v) (hitN w)) * 0.5,
                    hitY w + snd (reflect (rayD v) (hitN w)) * 0.5),
           bounce := Suc (bounce v) \<rparr>"
      have "n = Suc maxBounces - bounce ?v'" "bounce ?v' \<le> Suc maxBounces" "hitBall ?v' = None"
        using Suc.prems le by simp_all
      from Suc.IH [OF this]
      have ih: "Suc (bounce v) \<le> bounce (predictLoop h ts r bnds ?v')"
        "bounce (predictLoop h ts r bnds ?v') \<le> Suc maxBounces"
        "hitBall (predictLoop h ts r bnds ?v') \<noteq> None \<longrightarrow>
           bounce (predictLoop h ts r bnds ?v') \<le> maxBounces"
        "length (points (predictLoop h ts r bnds ?v')) =
           Suc (length (points v)) + (bounce (predictLoop h ts r bnds ?v') - Suc (bounce v)) +
           (if hitBall (predictLoop h ts r bnds ?v') = None then 0 else 1)"
        by simp_all
      show ?thesis
        unfolding predictLoop_wall [OF le nb Some] using ih by auto
    qed
  qed
qed


text \<open>
  C9 (amended). The loop counter starts at 0 and the loop runs while it is at most
  \<open>maxBounces\<close> = 3, so the body runs at most four times, for every origin, direction
  and set of balls. The counter's final value is the number of cushion contacts, each
  followed by a reflection: it is at most 4. The path has one vertex for the start, one
  for each cushion contact and one more when a ball is hit, and at most 5 vertices in
  all, so at most 3 cushion contacts lie inside the path.
\<close>

theorem C9_bounce_bound:
  "bounce (drawTrajectoryPredictor s startX startY angle) \<le> maxBounces + 1 \<and>
   length (points (drawTrajectoryPredictor s startX startY angle)) =
     1 + bounce (drawTrajectoryPredictor s startX startY angle) +
     (if hitBall (drawTrajectoryPredictor s startX startY angle) = None then 0 else 1) \<and>
   length (points (drawTrajectoryPredictor s startX startY angle)) \<le> maxBounces + 2 \<and>
   maxBounces = 3"
proof -
  obtain h ts r bnds v where
    d: "drawTrajectoryPredictor s startX startY angle = predictLoop h ts r bnds v"
    and v: "bounce v = 0" "hitBall v = None" "length (points v) = 1"
    by (simp add: drawTrajectoryPredictor_def Let_def)
  from v have "Suc maxBounces - 0 = Suc maxBounces - bounce v" "bounce v \<le> Suc maxBounces"
    by simp_all
  from predictLoop_bounds [OF this v(2), of h ts r bnds] v
  have b: "bounce (predictLoop h ts r bnds v) \<le> Suc maxBounces"
    "hitBall (predictLoop h ts r bnds v) \<noteq> None \<longrightarrow> bounce (predictLoop h ts r bnds v) \<le> maxBounces"
    "length (points (predictLoop h ts r bnds v)) =
       1 + bounce (predictLoop h ts r bnds v) +
       (if hitBall (predictLoop h ts r bnds v) = None then 0 else 1)"
    by simp_all
  then show ?thesis
    unfolding d by (auto simp: maxBounces_def)
qed

lemma predictor_start:
  "drawTrajectoryPredictor initialState 200 200 0 =
     predictLoop (\<lambda>a. None) [] 6.25 (46.25, 165.25, 893.75, 562.75)
       \<lparr> rayO = (200, 200), rayD = (1, 0), points = [(200, 200)],
         hitBall = None, hitPoint = None, bounce = 0 \<rparr>"
  by (simp add: drawTrajectoryPredictor_def Let_def initialState_def surface_1196 geometry_900
      constrain_def)

text \<open>
  C9 (as stated). On the empty 1196 x 720 table, the ray from (200, 200) along the x axis
  goes through four iterations of the loop: it meets the right, left, right and left
  cushion, and a reflection is computed at each of the four contact points, one more than
  \<open>maxBounces\<close>.
\<close>

theorem C9_bounce_bound_counterexample:
  "bounce (drawTrajectoryPredictor initialState 200 200 0) = 4 \<and>
   hitBall (drawTrajectoryPredictor initialState 200 200 0) = None \<and>
   points (drawTrajectoryPredictor initialState 200 200 0) =
     [(200, 200), (893.75, 200), (46.25, 200), (893.75, 200), (46.25, 200)]"
  unfolding predictor_start
  by (simp add: predictLoop.simps Let_def rayRectHit_def candidate_def belowBest_def
      ballBeforeWall_def reflect_def maxBounces_def)

section \<open>Separation of generated layouts\<close>

subsection \<open>Creating a ball\<close>

lemma ballId_frame:
  "heap (snd (ballId e s)) = heap s"
  "nextAddr (snd (ballId e s)) = nextAddr s"
  "world (snd (ballId e s)) = world s"
  "tbl (snd (ballId e s)) = tbl s"
  "colours (snd (ballId e s)) = colours s"
  "reds (snd (ballId e s)) = reds s"
  "cueBall (snd (ballId e s)) = cueBall s"
  "rnd (snd (ballId e s)) = rnd s"
  "mode (snd (ballId e s)) = mode s"
  by (simp_all add: ballId_def generatedId_def random1_def random01_def split: option.splits)

lemma createBall_fst: "fst (createBall x y r col e ic ir s) = nextAddr s"
  by (simp add: createBall_def Let_def ballId_frame)

lemma createBall_frame:
  "nextAddr (snd (createBall x y r col e ic ir s)) = Suc (nextAddr s)"
  "tbl (snd (createBall x y r col e ic ir s)) = tbl s"
  "colours (snd (createBall x y r col e ic ir s)) = colours s"
  "reds (snd (createBall x y r col e ic ir s)) = reds s"
  "cueBall (snd (createBall x y r col e ic ir s)) = cueBall s"
  "rnd (snd (createBall x y r col e ic ir s)) = rnd s"
  "mode (snd (createBall x y r col e ic ir s)) = mode s"
  by (simp_all add: createBall_def Let_def ballId_frame)

lemma createBall_heap:
  "heap (snd (createBall x y r col e ic ir s)) =
     (heap s)(nextAddr s \<mapsto>
        \<lparr> bid = fst (ballId e s), colour = col, position = (x, y), velocity = (0, 0),
          force = (0, 0), rad = r, isCue = ic, isRed = ir, potted = False \<rparr>)"
  by (simp add: createBall_def Let_def ballId_frame)

lemma dist_p5_sym: "dist_p5 x1 y1 x2 y2 = dist_p5 x2 y2 x1 y1"
  by (simp add: dist_p5_def power2_commute)

lemma apart_sym: "apart h m a a' = apart h m a' a"
  by (auto simp: apart_def dist_p5_sym split: option.splits)

lemma nonOverlappingLoop_far:
  "nonOverlappingLoop h x y m as \<Longrightarrow> a \<in> set as \<Longrightarrow> h a = Some b \<Longrightarrow> \<not> potted b \<Longrightarrow>
   dist_p5 x y (fst (position b)) (snd (position b)) \<ge> m"
  by (induction as) (auto split: option.splits if_splits)

text \<open>Adding a ball that passed the overlap test keeps the invariant.\<close>

lemma layoutInv_push:
  assumes inv: "layoutInv s m (l @ c)"
    and ok: "nonOverlappingLoop (heap s) x y m (l @ c)"
  shows "layoutInv (snd (createBall x y r col e ic ir s)) m
           ((l @ [fst (createBall x y r col e ic ir s)]) @ c)"
proof -
  let ?a = "nextAddr s"
  let ?b = "\<lparr> bid = fst (ballId e s), colour = col, position = (x, y), velocity = (0, 0),
          force = (0, 0), rad = r, isCue = ic, isRed = ir, potted = False \<rparr>"
  let ?h = "(heap s)(?a \<mapsto> ?b)"
  from inv have old: "\<forall>a \<in> set (l @ c). a < ?a" and d: "distinct (l @ c)"
    and live: "\<forall>a \<in> set (l @ c). case heap s a of None \<Rightarrow> False | Some b \<Rightarrow> \<not> potted b"
    and ap: "\<forall>a \<in> set (l @ c). \<forall>a' \<in> set (l @ c). a \<noteq> a' \<longrightarrow> apart (heap s) m a a'"
    by (auto simp: layoutInv_def)
  from old have fresh: "?a \<notin> set (l @ c)" by auto
  have new_old: "apart ?h m ?a a" if "a \<in> set (l @ c)" for a
  proof -
    from that live obtain b where b: "heap s a = Some b" "\<not> potted b"
      by (auto split: option.splits)
    from nonOverlappingLoop_far [OF ok that b]
    have "dist_p5 x y (fst (position b)) (snd (position b)) \<ge> m" .
    moreover from that fresh have "a \<noteq> ?a" by auto
    ultimately show ?thesis using b by (simp add: apart_def)
  qed
  have old_old: "apart ?h m a a'" if "a \<in> set (l @ c)" "a' \<in> set (l @ c)" "a \<noteq> a'" for a a'
  proof -
    from that fresh have "a \<noteq> ?a" "a' \<noteq> ?a" by auto
    moreover from ap that have "apart (heap s) m a a'" by blast
    ultimately show ?thesis by (auto simp: apart_def split: option.splits)
  qed
  have "distinct ((l @ [?a]) @ c)" using d fresh by auto
  moreover have "\<forall>a \<in> set ((l @ [?a]) @ c). a < Suc ?a \<and>
      (case ?h a of None \<Rightarrow> False | Some b \<Rightarrow> \<not> potted b)"
    using old live by (auto split: option.splits intro: less_SucI)
  moreover have "\<forall>a \<in> set ((l @ [?a]) @ c). \<forall>a' \<in> set ((l @ [?a]) @ c).
      a \<noteq> a' \<longrightarrow> apart ?h m a a'"
  proof (intro ballI impI)
    fix a a' assume a: "a \<in> set ((l @ [?a]) @ c)" "a' \<in> set ((l @ [?a]) @ c)" "a \<noteq> a'"
    then consider "a = ?a" "a' \<in> set (l @ c)" | "a' = ?a" "a \<in> set (l @ c)"
      | "a \<in> set (l @ c)" "a' \<in> set (l @ c)"
      by auto
    then show "apart ?h m a a'"
    proof cases
      case 1
      then show ?thesis using new_old by simp
    next
      case 2
      then show ?thesis using new_old [of a] by (simp add: apart_sym)
    next
      case 3
      then show ?thesis using old_old a(3) by simp
    qed
  qed
  ultimately show ?thesis
    by (simp add: layoutInv_def createBall_fst createBall_frame createBall_heap)
qed


lemma fold_inv:
  assumes "P acc" and "\<And>x acc. x \<in> set xs \<Longrightarrow> P acc \<Longrightarrow> P (f x acc)"
  shows "P (fold f xs acc)"
  using assms by (induction xs arbitrary: acc) auto

lemma layoutAcc_cong:
  assumes "heap s' = heap s" "nextAddr s' = nextAddr s" "tbl s' = tbl s" "colours s' = colours s"
    "cueBall s' = cueBall s" "rnd s' = rnd s"
  shows "layoutAcc T C R (l, s') = layoutAcc T C R (l, s)"
  using assms by (simp add: layoutAcc_def layoutInv_def)

text \<open>A ball that passed the overlap test may join the list.\<close>

lemma layoutAcc_push:
  assumes "layoutAcc T C R (l, s)"
    and "nonOverlapping s x y (ballR T) l (colours s) (cueBall s)"
  shows "layoutAcc T C R (l @ [fst (createBall x y r col e ic ir s)],
                         snd (createBall x y r col e ic ir s))"
  using assms layoutInv_push [of s "ballR T * 2.05" l C x y r col e ic ir]
  by (simp add: layoutAcc_def nonOverlapping_def allOf_simps createBall_frame)

lemma practiceBall_inv:
  "layoutAcc T C R acc \<Longrightarrow> layoutAcc T C R (practiceBall row col acc)"
proof -
  assume a: "layoutAcc T C R acc"
  then have t: "tbl (snd acc) = T" by (simp add: layoutAcc_def)
  from a have a': "layoutAcc T C R (fst acc, snd acc)" by simp
  show ?thesis
    using a layoutAcc_push [OF a']
    by (simp add: practiceBall_def Let_def case_prod_beta t)
qed

lemma createRedsPracticeLayout_inv:
  assumes "layoutAcc T C R ([], s)"
  shows "layoutAcc T C R (createRedsPracticeLayout s)"
  unfolding createRedsPracticeLayout_def
proof (rule fold_inv [where P = "layoutAcc T C R"])
  show "layoutAcc T C R ([], s)" by (rule assms)
next
  fix row acc
  assume "layoutAcc T C R acc"
  then show "layoutAcc T C R (fold (practiceBall row) [0..<5] acc)"
    by (rule fold_inv [where P = "layoutAcc T C R"]) (rule practiceBall_inv)
qed

lemma fallbackBall_inv:
  "layoutAcc T C R (l, s) \<Longrightarrow> layoutAcc T C R (fallbackBall i l s)"
proof -
  assume a: "layoutAcc T C R (l, s)"
  then have t: "tbl s = T" by (simp add: layoutAcc_def)
  show ?thesis
    using a layoutAcc_push [OF a]
    by (simp add: fallbackBall_def Let_def case_prod_beta t)
qed

lemma random_frame:
  "heap (snd (random01 s)) = heap s" "nextAddr (snd (random01 s)) = nextAddr s"
  "tbl (snd (random01 s)) = tbl s" "colours (snd (random01 s)) = colours s"
  "cueBall (snd (random01 s)) = cueBall s" "rnd (snd (random01 s)) = rnd s"
  "snd (random1 m s) = snd (random01 s)" "snd (random2 lo hi s) = snd (random01 s)"
  "fst (random1 m s) = rnd s (rndPos s) * m"
  by (simp_all add: random01_def random1_def random2_def)

lemma layoutAcc_random: "layoutAcc T C R (l, snd (random01 s)) = layoutAcc T C R (l, s)"
  by (rule layoutAcc_cong) (simp_all add: random_frame)

subsection \<open>The clustered layout\<close>

lemma cluster_index:
  assumes "0 \<le> u" "u < 1"
  shows "0 \<le> \<lfloor>u * 3\<rfloor>" "\<lfloor>u * 3\<rfloor> < 3"
  using assms by (simp_all add: floor_less_iff)

lemma attemptLoop_inv:
  assumes "\<forall>k. 0 \<le> R k \<and> R k < 1" and "length cl = 3"
  shows "layoutAcc T C R (l, s) \<Longrightarrow>
     \<exists>pl l' s'. attemptLoop n cl l s = Some (pl, l', s') \<and> layoutAcc T C R (l', s')"
proof (induction n arbitrary: s)
  case 0
  then show ?case by auto
next
  case (Suc n)
  let ?s1 = "snd (random01 s)"
  let ?s2 = "snd (random01 ?s1)"
  let ?s3 = "snd (random01 ?s2)"
  from Suc.prems have R: "rnd s = R" and t: "tbl s = T" by (simp_all add: layoutAcc_def)
  from assms(1) R have idx: "0 \<le> \<lfloor>rnd s (rndPos s) * 3\<rfloor>" "\<lfloor>rnd s (rndPos s) * 3\<rfloor> < 3"
    by (simp_all add: cluster_index)
  from Suc.prems have a3: "layoutAcc T C R (l, ?s3)"
    by (simp add: layoutAcc_random)
  then have t3: "tbl ?s3 = T" by (simp add: layoutAcc_def)
  from Suc.IH [OF a3] obtain pl l' s' where
    rec: "attemptLoop n cl l ?s3 = Some (pl, l', s')" "layoutAcc T C R (l', s')"
    by blast
  show ?case
    using idx rec layoutAcc_push [OF a3]
    by (auto simp add: Let_def case_prod_beta random_frame assms(2) t t3)
qed


lemma clusteredLoop_inv:
  assumes "\<forall>k. 0 \<le> R k \<and> R k < 1" and "length cl = 3"
  shows "layoutAcc T C R (l, s) \<Longrightarrow>
     \<exists>l' s'. clusteredLoop is cl l s = Some (l', s') \<and> layoutAcc T C R (l', s')"
proof (induction "is" arbitrary: l s)
  case Nil
  then show ?case by simp
next
  case (Cons i "is")
  from attemptLoop_inv [OF assms Cons.prems, of 300] obtain pl l1 s1 where
    a: "attemptLoop 300 cl l s = Some (pl, l1, s1)" "layoutAcc T C R (l1, s1)"
    by blast
  show ?case
  proof (cases pl)
    case True
    from Cons.IH [OF a(2)] a(1) True show ?thesis by simp
  next
    case False
    from fallbackBall_inv [OF a(2), of i]
    have "layoutAcc T C R (fst (fallbackBall i l1 s1), snd (fallbackBall i l1 s1))" by simp
    from Cons.IH [OF this] a(1) False show ?thesis by simp
  qed
qed

lemma pickCluster_inv:
  "layoutAcc T C R (l, snd acc) \<Longrightarrow>
   layoutAcc T C R (l, snd (pickCluster acc)) \<and> length (fst (pickCluster acc)) = Suc (length (fst acc))"
  by (simp add: pickCluster_def Let_def case_prod_beta random_frame layoutAcc_random)

lemma createRedsClusteredRandom_inv:
  assumes "\<forall>k. 0 \<le> R k \<and> R k < 1" and "layoutAcc T C R ([], s)"
  shows "\<exists>l' s'. createRedsClusteredRandom s = Some (l', s') \<and> layoutAcc T C R (l', s')"
proof -
  let ?c = "fold (\<lambda>i. pickCluster) [0..<3::nat] ([], s)"
  have "layoutAcc T C R ([], snd ?c) \<and> length (fst ?c) = 3"
    using assms(2) pickCluster_inv [of T C R "[]"]
    by (simp add: upt_rec [of 0] upt_rec [of 1] upt_rec [of 2] numeral_3_eq_3)
  then have "\<exists>l' s'. clusteredLoop [0..<15] (fst ?c) [] (snd ?c) = Some (l', s') \<and>
      layoutAcc T C R (l', s')"
    using clusteredLoop_inv [OF assms(1)] by blast
  then show ?thesis
    by (simp add: createRedsClusteredRandom_def case_prod_beta)
qed

subsection \<open>The unit layout\<close>

lemma unitTriangle_list:
  "unitTriangle =
     [(53.6, 0),
      (54.58, - 0.525), (54.58, 0.525),
      (55.56, - 1.05), (55.56, 0), (55.56, 1.05),
      (56.54, - 1.575), (56.54, - 0.525), (56.54, 0.525), (56.54, 1.575),
      (57.52, - 2.1), (57.52, - 1.05), (57.52, 0), (57.52, 1.05), (57.52, 2.1)]"
  by (simp add: unitTriangle_def upt_rec [of 0] upt_rec [of 1] upt_rec [of 2] upt_rec [of 3]
      upt_rec [of 4] upt_rec [of "Suc 0"] upt_rec [of "Suc (Suc 0)"] eval_nat_numeral)

lemma farApart_units: "farApart (unitColours @ unitTriangle)"
  unfolding unitTriangle_list unitColours_def
  by (simp add: power2_eq_square)

lemma sqrt_unit: "sqrt 1.050625 = 1.025"
  by (rule real_sqrt_unique) (simp_all add: power2_eq_square)

lemma scaled_far:
  assumes "(fst p - fst q)\<^sup>2 + (snd p - snd q)\<^sup>2 \<ge> 1.050625"
  shows "dist_p5 (fst (scaled x0 yc d p)) (snd (scaled x0 yc d p))
                 (fst (scaled x0 yc d q)) (snd (scaled x0 yc d q)) \<ge> d / 2 * 2.05"
proof -
  let ?u = "(fst p - fst q)\<^sup>2 + (snd p - snd q)\<^sup>2"
  have "(x0 + d * fst q - (x0 + d * fst p))\<^sup>2 + (yc + d * snd q - (yc + d * snd p))\<^sup>2 = d\<^sup>2 * ?u"
    by (simp add: power2_eq_square algebra_simps)
  then have "dist_p5 (fst (scaled x0 yc d p)) (snd (scaled x0 yc d p))
                 (fst (scaled x0 yc d q)) (snd (scaled x0 yc d q)) = \<bar>d\<bar> * sqrt ?u"
    by (simp add: dist_p5_def scaled_def real_sqrt_mult)
  moreover have "sqrt ?u \<ge> 1.025"
    using assms real_sqrt_le_mono [of "1.050625" "?u"] by (simp only: sqrt_unit)
  then have "\<bar>d\<bar> * sqrt ?u \<ge> \<bar>d\<bar> * 1.025"
    by (intro mult_left_mono) simp_all
  moreover have "\<bar>d\<bar> * 1.025 \<ge> d / 2 * 2.05" by simp
  ultimately show ?thesis by linarith
qed

lemma farApart_nth_less:
  "farApart ps \<Longrightarrow> i < j \<Longrightarrow> j < length ps \<Longrightarrow>
   (fst (ps ! i) - fst (ps ! j))\<^sup>2 + (snd (ps ! i) - snd (ps ! j))\<^sup>2 \<ge> 1.050625"
proof (induction ps arbitrary: i j)
  case Nil
  then show ?case by simp
next
  case (Cons p ps)
  show ?case
  proof (cases i)
    case 0
    with Cons.prems obtain j' where j': "j = Suc j'" "j' < length ps"
      by (cases j) auto
    from Cons.prems(1) have "list_all (\<lambda>q. (fst p - fst q)\<^sup>2 + (snd p - snd q)\<^sup>2 \<ge> 1.050625) ps"
      by simp
    with j' have "(fst p - fst (ps ! j'))\<^sup>2 + (snd p - snd (ps ! j'))\<^sup>2 \<ge> 1.050625"
      by (simp add: list_all_length)
    with 0 j' show ?thesis by simp
  next
    case (Suc i')
    with Cons.prems obtain j' where j': "j = Suc j'" "i' < j'" "j' < length ps"
      by (cases j) auto
    from Cons.prems(1) have "farApart ps" by simp
    from Cons.IH [OF this j'(2,3)] Suc j' show ?thesis by simp
  qed
qed

lemma farApart_nth:
  assumes "farApart ps" "i < length ps" "j < length ps" "i \<noteq> j"
  shows "(fst (ps ! i) - fst (ps ! j))\<^sup>2 + (snd (ps ! i) - snd (ps ! j))\<^sup>2 \<ge> 1.050625"
proof (cases "i < j")
  case True
  then show ?thesis using assms farApart_nth_less by blast
next
  case False
  with assms have "j < i" by simp
  from farApart_nth_less [OF assms(1) this assms(2)] show ?thesis
    by (simp add: power2_commute)
qed

text \<open>Balls placed at the scaled images of far-apart unit points satisfy the invariant.\<close>

lemma placedAt_layoutInv:
  assumes pl: "placedAt (heap s) n (map (scaled x0 yc d) us)"
    and nx: "n + length us \<le> nextAddr s"
    and far: "farApart us"
  shows "layoutInv s (d / 2 * 2.05) [n..<n + length us]"
proof -
  have at: "\<exists>b. heap s (n + k) = Some b \<and> \<not> potted b \<and> position b = scaled x0 yc d (us ! k)"
    if "k < length us" for k
    using pl that by (auto simp: placedAt_def split: option.splits)
  have "apart (heap s) (d / 2 * 2.05) a a'"
    if "a \<in> set [n..<n + length us]" "a' \<in> set [n..<n + length us]" "a \<noteq> a'" for a a'
  proof -
    from that obtain i j where ij: "a = n + i" "a' = n + j" "i < length us" "j < length us" "i \<noteq> j"
      by (auto simp: nat_le_iff_add)
    from at [OF ij(3)] at [OF ij(4)] obtain b b' where
      b: "heap s a = Some b" "position b = scaled x0 yc d (us ! i)"
         "heap s a' = Some b'" "position b' = scaled x0 yc d (us ! j)"
      using ij by auto
    from scaled_far [OF farApart_nth [OF far ij(3,4,5)]] b
    show ?thesis by (simp add: apart_def)
  qed
  moreover have "a < nextAddr s \<and> (case heap s a of None \<Rightarrow> False | Some b \<Rightarrow> \<not> potted b)"
    if "a \<in> set [n..<n + length us]" for a
  proof -
    from that obtain k where k: "a = n + k" "k < length us"
      by (auto simp: nat_le_iff_add)
    with at [OF k(2)] nx show ?thesis by auto
  qed
  ultimately show ?thesis
    by (simp add: layoutInv_def)
qed

lemma layoutInv_perm:
  "layoutInv s m as \<Longrightarrow> set bs = set as \<Longrightarrow> distinct bs \<Longrightarrow> layoutInv s m bs"
  by (simp add: layoutInv_def)

subsection \<open>Colours and triangle on a computed table\<close>

lemma surface_size:
  "rw (surface (rebuildTableGeometry W H)) = 68.8 * ballD (rebuildTableGeometry W H)"
  "rh (surface (rebuildTableGeometry W H)) = 32.8 * ballD (rebuildTableGeometry W H)"
  by (simp_all add: geometry_surface geometry_outer)

lemma spots_surface:
  "yellow (spots (rebuildTableGeometry W H)) =
     (rx (surface (rebuildTableGeometry W H)) + rw (surface (rebuildTableGeometry W H)) * 0.207,
      ry (surface (rebuildTableGeometry W H)) + rh (surface (rebuildTableGeometry W H)) / 2
        + rh (surface (rebuildTableGeometry W H)) * 0.165)"
  "green (spots (rebuildTableGeometry W H)) =
     (rx (surface (rebuildTableGeometry W H)) + rw (surface (rebuildTableGeometry W H)) * 0.207,
      ry (surface (rebuildTableGeometry W H)) + rh (surface (rebuildTableGeometry W H)) / 2
        - rh (surface (rebuildTableGeometry W H)) * 0.165)"
  "brown (spots (rebuildTableGeometry W H)) =
     (rx (surface (rebuildTableGeometry W H)) + rw (surface (rebuildTableGeometry W H)) * 0.207,
      ry (surface (rebuildTableGeometry W H)) + rh (surface (rebuildTableGeometry W H)) / 2)"
  "blue (spots (rebuildTableGeometry W H)) =
     (rx (surface (rebuildTableGeometry W H)) + rw (surface (rebuildTableGeometry W H)) / 2,
      ry (surface (rebuildTableGeometry W H)) + rh (surface (rebuildTableGeometry W H)) / 2)"
  "pink (spots (rebuildTableGeometry W H)) =
     (rx (surface (rebuildTableGeometry W H)) + rw (surface (rebuildTableGeometry W H)) * 0.75,
      ry (surface (rebuildTableGeometry W H)) + rh (surface (rebuildTableGeometry W H)) / 2)"
  "black (spots (rebuildTableGeometry W H)) =
     (rx (surface (rebuildTableGeometry W H)) + rw (surface (rebuildTableGeometry W H)) * 0.91,
      ry (surface (rebuildTableGeometry W H)) + rh (surface (rebuildTableGeometry W H)) / 2)"
  unfolding rebuildTableGeometry_def Let_def
  by (simp_all only: table.simps rect.simps spots.simps fst_conv snd_conv)

text \<open>
  The table of any canvas is the unit layout scaled by its ball diameter: \<open>x0\<close> is the
  left edge of the surface and \<open>yc\<close> its centre line.
\<close>

lemma spots_scaled:
  assumes "T = rebuildTableGeometry W H"
    and "x0 = rx (surface T)" and "yc = ry (surface T) + rh (surface T) / 2" and "d = ballD T"
  shows "[yellow (spots T), green (spots T), brown (spots T), blue (spots T), pink (spots T),
          black (spots T)] = map (scaled x0 yc d) unitColours"
    and "ballR T = d / 2"
    and "pink (spots T) = (x0 + d * 51.6, yc)"
  using assms
  by (simp_all add: spots_surface surface_size scaled_def unitColours_def geometry_outer)

lemma placedAt_Nil: "placedAt h n []"
  by (simp add: placedAt_def)

lemma placedAt_Cons:
  "placedAt h n (p # ps) =
     ((case h n of None \<Rightarrow> False | Some b \<Rightarrow> \<not> potted b \<and> position b = p) \<and>
      placedAt h (Suc n) ps)"
proof -
  have "(\<forall>k < Suc (length ps). Q k) = (Q 0 \<and> (\<forall>k < length ps. Q (Suc k)))" for Q
    by (auto simp: less_Suc_eq_0_disj)
  then show ?thesis
    by (simp add: placedAt_def cong: option.case_cong)
qed

lemma placedAt_append:
  "placedAt h n (ps @ qs) = (placedAt h n ps \<and> placedAt h (n + length ps) qs)"
  by (induction ps arbitrary: n) (simp_all add: placedAt_Nil placedAt_Cons)

lemma placedAt_upd:
  "placedAt h n ps \<Longrightarrow> n + length ps \<le> a \<Longrightarrow> placedAt (h(a \<mapsto> b)) n ps"
  by (simp add: placedAt_def)

lemma createColouredBalls_placed:
  "fst (createColouredBalls s) = [nextAddr s..<nextAddr s + 6]"
  "nextAddr (snd (createColouredBalls s)) = nextAddr s + 6"
  "tbl (snd (createColouredBalls s)) = tbl s"
  "cueBall (snd (createColouredBalls s)) = cueBall s"
  "reds (snd (createColouredBalls s)) = reds s"
  "rnd (snd (createColouredBalls s)) = rnd s"
  "mode (snd (createColouredBalls s)) = mode s"
  "placedAt (heap (snd (createColouredBalls s))) (nextAddr s)
     [yellow (spots (tbl s)), green (spots (tbl s)), brown (spots (tbl s)),
      blue (spots (tbl s)), pink (spots (tbl s)), black (spots (tbl s))]"
  by (simp_all add: createColouredBalls_def Let_def case_prod_beta createBall_fst createBall_frame
      createBall_heap placedAt_Cons placedAt_Nil upt_rec [of "nextAddr s"]
      upt_rec [of "Suc (nextAddr s)"] upt_rec [of "Suc (Suc (nextAddr s))"]
      upt_rec [of "Suc (Suc (Suc (nextAddr s)))"] upt_rec [of "Suc (Suc (Suc (Suc (nextAddr s))))"]
      upt_rec [of "Suc (Suc (Suc (Suc (Suc (nextAddr s)))))"]
      upt_rec [of "Suc (Suc (Suc (Suc (Suc (Suc (nextAddr s))))))"])

lemma fold_grow:
  assumes "\<And>x ps acc. Q ps acc \<Longrightarrow> Q (ps @ G x) (F x acc)"
  shows "Q ps acc \<Longrightarrow> Q (ps @ concat (map G xs)) (fold F xs acc)"
proof (induction xs arbitrary: ps acc)
  case Nil
  then show ?case by simp
next
  case (Cons x xs)
  from assms [OF Cons.prems] have "Q (ps @ G x) (F x acc)" .
  from Cons.IH [OF this] show ?case by simp
qed

lemma triangleBall_placed:
  assumes shape: "pink (spots T) = (x0 + d * 51.6, yc)"
      "ry (surface T) + rh (surface T) / 2 = yc" "ballD T = d"
    and acc: "placedAcc T n c ps acc"
  shows "placedAcc T n c
           (ps @ [scaled x0 yc d (53.6 + 0.98 * real row, (real col - real row / 2) * 1.05)])
           (triangleBall row col acc)"
proof -
  from acc have a: "tbl (snd acc) = T" "c \<le> length ps" "fst acc = [n + c..<n + length ps]"
    "nextAddr (snd acc) = n + length ps" "placedAt (heap (snd acc)) n ps"
    by (simp_all add: placedAcc_def)
  have pos: "(fst (pink (spots T)) + d * 2.0 + real row * (d * 0.98),
              ry (surface T) + rh (surface T) / 2 + (real col - real row / 2) * (d * 1.05)) =
             scaled x0 yc d (53.6 + 0.98 * real row, (real col - real row / 2) * 1.05)"
    by (simp add: shape scaled_def algebra_simps)
  have l: "fst acc @ [n + length ps] = [n + c..<n + Suc (length ps)]"
    using a(2,3) by simp
  show ?thesis
    using a l pos
    by (simp add: placedAcc_def triangleBall_def Let_def case_prod_beta createBall_fst
        createBall_frame createBall_heap placedAt_append placedAt_Cons placedAt_Nil
        placedAt_upd shape)
qed

lemma createRedsStandardTriangle_placed:
  assumes shape: "pink (spots T) = (x0 + d * 51.6, yc)"
      "ry (surface T) + rh (surface T) / 2 = yc" "ballD T = d"
    and acc: "placedAcc T n c ps ([], s)"
  shows "placedAcc T n c (ps @ map (scaled x0 yc d) unitTriangle) (createRedsStandardTriangle s)"
proof -
  let ?u = "\<lambda>row col. (53.6 + 0.98 * real row, (real col - real row / 2) * 1.05)"
  have row: "placedAcc T n c (qs @ map (\<lambda>col. scaled x0 yc d (?u row col)) [0..<Suc row])
               (fold (triangleBall row) [0..<Suc row] a)"
    if "placedAcc T n c qs a" for qs a row
  proof -
    have "placedAcc T n c (qs @ concat (map (\<lambda>col. [scaled x0 yc d (?u row col)]) [0..<Suc row]))
               (fold (triangleBall row) [0..<Suc row] a)"
    proof (rule fold_grow [where Q = "placedAcc T n c"])
      show "placedAcc T n c qs a" by (rule that)
    next
      fix col and ps :: "(real \<times> real) list" and acc :: "nat list \<times> state"
      assume "placedAcc T n c ps acc"
      then show "placedAcc T n c (ps @ [scaled x0 yc d (?u row col)]) (triangleBall row col acc)"
        by (rule triangleBall_placed [OF shape])
    qed
    then show ?thesis by (simp only: concat_map_singleton)
  qed
  have "placedAcc T n c
          (ps @ concat (map (\<lambda>row. map (\<lambda>col. scaled x0 yc d (?u row col)) [0..<Suc row]) [0..<5]))
          (fold (\<lambda>row. fold (triangleBall row) [0..<Suc row]) [0..<5] ([], s))"
  proof (rule fold_grow [where Q = "placedAcc T n c"])
    show "placedAcc T n c ps ([], s)" by (rule acc)
  next
    fix row and qs :: "(real \<times> real) list" and a :: "nat list \<times> state"
    assume "placedAcc T n c qs a"
    then show "placedAcc T n c (qs @ map (\<lambda>col. scaled x0 yc d (?u row col)) [0..<Suc row])
               (fold (triangleBall row) [0..<Suc row] a)"
      by (rule row)
  qed
  moreover have "concat (map (\<lambda>row. map (\<lambda>col. scaled x0 yc d (?u row col)) [0..<Suc row]) [0..<5])
      = map (scaled x0 yc d) unitTriangle"
    by (simp only: unitTriangle_def map_concat map_map comp_def)
  ultimately show ?thesis
    by (simp only: createRedsStandardTriangle_def)
qed

lemma triangleBall_frame:
  "colours (snd (triangleBall row col acc)) = colours (snd acc)"
  "cueBall (snd (triangleBall row col acc)) = cueBall (snd acc)"
  "rnd (snd (triangleBall row col acc)) = rnd (snd acc)"
  by (simp_all add: triangleBall_def Let_def case_prod_beta createBall_frame)

lemma createRedsStandardTriangle_frame:
  "colours (snd (createRedsStandardTriangle s)) = colours s \<and>
   cueBall (snd (createRedsStandardTriangle s)) = cueBall s \<and>
   rnd (snd (createRedsStandardTriangle s)) = rnd s"
proof -
  let ?P = "\<lambda>acc :: nat list \<times> state.
              colours (snd acc) = colours s \<and> cueBall (snd acc) = cueBall s \<and> rnd (snd acc) = rnd s"
  have "?P (fold (\<lambda>row. fold (triangleBall row) [0..<Suc row]) [0..<5] ([], s))"
  proof (rule fold_inv [where P = ?P])
    show "?P ([], s)" by simp
  next
    fix row and acc :: "nat list \<times> state"
    assume "?P acc"
    then show "?P (fold (triangleBall row) [0..<Suc row] acc)"
      by (rule fold_inv [where P = ?P]) (simp add: triangleBall_frame)
  qed
  then show ?thesis by (simp only: createRedsStandardTriangle_def)
qed

lemma clearBallsOnly_frame:
  "heap (clearBallsOnly s) = heap s" "nextAddr (clearBallsOnly s) = nextAddr s"
  "tbl (clearBallsOnly s) = tbl s" "rnd (clearBallsOnly s) = rnd s"
  "mode (clearBallsOnly s) = mode s"
  "reds (clearBallsOnly s) = []" "colours (clearBallsOnly s) = []"
  "cueBall (clearBallsOnly s) = None"
proof -
  let ?f = "\<lambda>a st. if heap st a \<noteq> None then st\<lparr> world := world st - {a} \<rparr> else st"
  let ?P = "\<lambda>st :: state. heap st = heap s \<and> nextAddr st = nextAddr s \<and> tbl st = tbl s \<and> rnd st = rnd s \<and>
                 mode st = mode s"
  have "?P (fold ?f (allOf (reds s) (colours s) (cueBall s)) s)"
    by (rule fold_inv [where P = ?P]) simp_all
  then show "heap (clearBallsOnly s) = heap s" "nextAddr (clearBallsOnly s) = nextAddr s"
    "tbl (clearBallsOnly s) = tbl s" "rnd (clearBallsOnly s) = rnd s"
    "mode (clearBallsOnly s) = mode s"
    "reds (clearBallsOnly s) = []" "colours (clearBallsOnly s) = []"
    "cueBall (clearBallsOnly s) = None"
    by (simp_all add: clearBallsOnly_def Let_def)
qed

lemma resetShotState_frame:
  "heap (resetShotState s) = heap s" "nextAddr (resetShotState s) = nextAddr s"
  "tbl (resetShotState s) = tbl s" "reds (resetShotState s) = reds s"
  "colours (resetShotState s) = colours s" "cueBall (resetShotState s) = None"
  by (simp_all add: resetShotState_def)

subsection \<open>The layout that setMode returns\<close>

lemma farApart_prefix: "farApart (ps @ qs) \<Longrightarrow> farApart ps"
  by (induction ps) simp_all

lemma layoutInv_pairs:
  assumes "layoutInv s m as" "i < j" "j < length as"
  shows "apart (heap s) m (as ! i) (as ! j)"
proof -
  from assms have "distinct as" "i < length as" by (simp_all add: layoutInv_def)
  with assms have "as ! i \<noteq> as ! j" by (simp add: nth_eq_iff_index_eq)
  moreover from assms \<open>i < length as\<close> have "as ! i \<in> set as" "as ! j \<in> set as" by simp_all
  ultimately show ?thesis using assms(1) by (simp add: layoutInv_def)
qed

text \<open>What a finished layout loop gives for the state that \<^verbatim>\<open>setMode\<close> returns.\<close>

lemma layoutAcc_result:
  fixes sf :: state
  assumes acc: "layoutAcc T C R (l, s')"
    and sf: "heap sf = heap s'" "nextAddr sf = nextAddr s'" "reds sf = l" "colours sf = C"
      "cueBall sf = None" "tbl sf = T"
    and ij: "i < j" "j < length (allOf (reds sf) (colours sf) (cueBall sf))"
  shows "apart (heap sf) (ballR (tbl sf) * 2.05)
           (allOf (reds sf) (colours sf) (cueBall sf) ! i)
           (allOf (reds sf) (colours sf) (cueBall sf) ! j)"
proof -
  from acc have "layoutInv s' (ballR T * 2.05) (l @ C)" by (simp add: layoutAcc_def)
  then have "layoutInv sf (ballR T * 2.05) (l @ C)" using sf(1,2) by (simp add: layoutInv_def)
  from layoutInv_pairs [OF this ij(1)] ij(2) sf show ?thesis
    by (simp add: allOf_simps)
qed

lemma coloured_state:
  fixes s :: state and nextMode :: nat
  assumes geo: "tbl s = rebuildTableGeometry W H"
  defines "s2 \<equiv> clearBallsOnly (s\<lparr> mode := nextMode, gameOver := False, gameOverReason := [] \<rparr>)"
  defines "s3 \<equiv> (snd (createColouredBalls s2))\<lparr> colours := fst (createColouredBalls s2) \<rparr>"
  defines "x0 \<equiv> rx (surface (tbl s))"
  defines "yc \<equiv> ry (surface (tbl s)) + rh (surface (tbl s)) / 2"
  defines "d \<equiv> ballD (tbl s)"
  shows "tbl s3 = tbl s" "nextAddr s3 = nextAddr s + 6" "cueBall s3 = None" "reds s3 = []"
    "colours s3 = [nextAddr s..<nextAddr s + 6]" "rnd s3 = rnd s" "mode s3 = nextMode"
    "placedAt (heap s3) (nextAddr s) (map (scaled x0 yc d) unitColours)"
proof -
  have s2: "heap s2 = heap s" "nextAddr s2 = nextAddr s" "tbl s2 = tbl s" "rnd s2 = rnd s"
    "mode s2 = nextMode" "reds s2 = []" "cueBall s2 = None"
    by (simp_all add: s2_def clearBallsOnly_frame)
  show "tbl s3 = tbl s" "nextAddr s3 = nextAddr s + 6" "cueBall s3 = None" "reds s3 = []"
    "colours s3 = [nextAddr s..<nextAddr s + 6]" "rnd s3 = rnd s" "mode s3 = nextMode"
    by (simp_all add: s3_def createColouredBalls_placed s2)
  from createColouredBalls_placed(8) [of s2]
  show "placedAt (heap s3) (nextAddr s) (map (scaled x0 yc d) unitColours)"
    using spots_scaled(1) [OF geo refl refl refl]
    by (simp add: s3_def s2 x0_def yc_def d_def)
qed

lemma layout_produced:
  fixes s :: state and nextMode :: nat
  assumes geo: "tbl s = rebuildTableGeometry W H"
    and rng: "nextMode = 2 \<longrightarrow> (\<forall>k. 0 \<le> rnd s k \<and> rnd s k < 1)"
  shows "\<exists>l s' sf. setMode nextMode s = Some sf \<and>
           layoutAcc (tbl s) [nextAddr s..<nextAddr s + 6] (rnd s) (l, s') \<and>
           heap sf = heap s' \<and> nextAddr sf = nextAddr s' \<and> reds sf = l \<and>
           colours sf = [nextAddr s..<nextAddr s + 6] \<and> cueBall sf = None \<and> tbl sf = tbl s \<and>
           (nextMode = 1 \<longrightarrow> length l = 15)"
proof -
  define s2 where "s2 = clearBallsOnly (s\<lparr> mode := nextMode, gameOver := False, gameOverReason := [] \<rparr>)"
  define s3 where "s3 = (snd (createColouredBalls s2))\<lparr> colours := fst (createColouredBalls s2) \<rparr>"
  define x0 where "x0 = rx (surface (tbl s))"
  define yc where "yc = ry (surface (tbl s)) + rh (surface (tbl s)) / 2"
  define d where "d = ballD (tbl s)"
  let ?T = "tbl s" and ?n = "nextAddr s" and ?R = "rnd s"
  let ?C = "[?n..<?n + 6]"
  note c = coloured_state [OF geo, of nextMode, folded s2_def, folded s3_def x0_def yc_def d_def]
  note shape = spots_scaled [OF geo x0_def yc_def d_def]
  have fu: "farApart unitColours"
    using farApart_units by (rule farApart_prefix)
  have m: "ballR ?T * 2.05 = d / 2 * 2.05"
    by (simp add: shape(2))
  have len6: "length unitColours = 6"
    by (simp add: unitColours_def)
  have "layoutInv s3 (d / 2 * 2.05) [?n..<?n + length unitColours]"
    by (rule placedAt_layoutInv [OF c(8) _ fu]) (simp add: c(2) len6)
  then have "layoutInv s3 (ballR ?T * 2.05) ?C"
    by (simp only: len6 m)
  then have base: "layoutAcc ?T ?C ?R ([], s3)"
    by (simp add: layoutAcc_def c)
  have sm: "setMode nextMode s =
      (if nextMode = 1 then
          Some (resetShotState ((snd (createRedsStandardTriangle s3))\<lparr> reds := fst (createRedsStandardTriangle s3) \<rparr>))
        else if nextMode = 2 then
          (case createRedsClusteredRandom s3 of
             None \<Rightarrow> None
           | Some (l, s4) \<Rightarrow> Some (resetShotState (s4\<lparr> reds := l \<rparr>)))
        else if nextMode = 3 then
          Some (resetShotState ((snd (createRedsPracticeLayout s3))\<lparr> reds := fst (createRedsPracticeLayout s3) \<rparr>))
        else Some (resetShotState s3))"
    unfolding setMode_def Let_def s3_def s2_def [symmetric]
    by (simp only: c(7) [unfolded s3_def])
  have fin: "\<exists>l s' sf. setMode nextMode s = Some sf \<and>
           layoutAcc ?T ?C ?R (l, s') \<and>
           heap sf = heap s' \<and> nextAddr sf = nextAddr s' \<and> reds sf = l \<and>
           colours sf = ?C \<and> cueBall sf = None \<and> tbl sf = ?T \<and>
           (nextMode = 1 \<longrightarrow> length l = 15)"
    if "setMode nextMode s = Some (resetShotState (s'\<lparr> reds := l \<rparr>))"
      and "layoutAcc ?T ?C ?R (l, s')" and "nextMode = 1 \<longrightarrow> length l = 15"
    for l and s' :: state
    using that
    by (intro exI [of _ l] exI [of _ s'] exI [of _ "resetShotState (s'\<lparr> reds := l \<rparr>)"])
       (simp add: resetShotState_frame layoutAcc_def)
  consider "nextMode = 1" | "nextMode = 2" | "nextMode = 3"
    | "nextMode \<noteq> 1" "nextMode \<noteq> 2" "nextMode \<noteq> 3"
    by blast
  then show ?thesis
  proof cases
    case 1
    let ?tri = "createRedsStandardTriangle s3"
    have "placedAcc ?T ?n 6 (map (scaled x0 yc d) unitColours) ([], s3)"
      by (simp add: placedAcc_def c len6)
    from createRedsStandardTriangle_placed [OF shape(3) yc_def [symmetric] d_def [symmetric] this]
    have p: "placedAcc ?T ?n 6 (map (scaled x0 yc d) (unitColours @ unitTriangle)) ?tri"
      by simp
    have len: "length (unitColours @ unitTriangle) = 21"
      by (simp add: unitColours_def unitTriangle_list)
    from p len have t: "tbl (snd ?tri) = ?T" "fst ?tri = [?n + 6..<?n + 21]"
      "nextAddr (snd ?tri) = ?n + 21"
      "placedAt (heap (snd ?tri)) ?n (map (scaled x0 yc d) (unitColours @ unitTriangle))"
      by (simp_all add: placedAcc_def)
    have "layoutInv (snd ?tri) (d / 2 * 2.05) [?n..<?n + length (unitColours @ unitTriangle)]"
      by (rule placedAt_layoutInv [OF t(4) _ farApart_units]) (simp only: t(3) len; simp)
    then have "layoutInv (snd ?tri) (d / 2 * 2.05) [?n..<?n + 21]"
      by (simp only: len)
    then have "layoutInv (snd ?tri) (d / 2 * 2.05) ([?n + 6..<?n + 21] @ ?C)"
      by (rule layoutInv_perm) auto
    then have acc: "layoutAcc ?T ?C ?R (fst ?tri, snd ?tri)"
      using createRedsStandardTriangle_frame [of s3]
      by (simp add: layoutAcc_def t shape(2) c)
    have e: "setMode nextMode s = Some (resetShotState ((snd ?tri)\<lparr> reds := fst ?tri \<rparr>))"
      unfolding sm using 1 by simp
    have "length (fst ?tri) = 15" by (simp add: t(2))
    then show ?thesis by (intro fin [OF e acc] impI)
  next
    case 2
    with rng have "\<forall>k. 0 \<le> ?R k \<and> ?R k < 1" by simp
    from createRedsClusteredRandom_inv [OF this base] obtain l' s' where
      r: "createRedsClusteredRandom s3 = Some (l', s')" "layoutAcc ?T ?C ?R (l', s')"
      by blast
    have e: "setMode nextMode s = Some (resetShotState (s'\<lparr> reds := l' \<rparr>))"
      unfolding sm using 2 r(1) by simp
    show ?thesis by (rule fin [OF e r(2)]) (simp add: 2)
  next
    case 3
    let ?pr = "createRedsPracticeLayout s3"
    from createRedsPracticeLayout_inv [OF base]
    have acc: "layoutAcc ?T ?C ?R (fst ?pr, snd ?pr)"
      by simp
    have e: "setMode nextMode s = Some (resetShotState ((snd ?pr)\<lparr> reds := fst ?pr \<rparr>))"
      unfolding sm using 3 by simp
    show ?thesis by (rule fin [OF e acc]) (simp add: 3)
  next
    case 4
    have "s3\<lparr> reds := [] \<rparr> = s3"
      by (subst c(4) [symmetric]) simp
    then have e: "setMode nextMode s = Some (resetShotState (s3\<lparr> reds := [] \<rparr>))"
      unfolding sm using 4 by simp
    show ?thesis by (rule fin [OF e base]) (use 4 in simp)
  qed
qed

text \<open>
  C7. On a table computed by \<^verbatim>\<open>rebuildTableGeometry\<close>, for every canvas size,
  \<^verbatim>\<open>setMode\<close> returns a layout in each mode (in the clustered mode provided that the
  random generator yields numbers in \<open>[0, 1)\<close>, as p5's does). The layout has no cue
  ball and six colours (and fifteen reds in the standard mode), and any two of its balls
  hold centres at least \<open>2.05 * ballR\<close> apart. In the standard mode and for the colours
  this is geometry; in the clustered and the practice mode every red passed
  \<^verbatim>\<open>nonOverlapping\<close> against the reds before it and the colours.
\<close>

theorem C7_separation:
  fixes s :: state and nextMode :: nat
  assumes "tbl s = rebuildTableGeometry W H"
    and "nextMode = 2 \<longrightarrow> (\<forall>k. 0 \<le> rnd s k \<and> rnd s k < 1)"
  shows "\<exists>sf. setMode nextMode s = Some sf \<and>
           cueBall sf = None \<and> length (colours sf) = 6 \<and>
           (nextMode = 1 \<longrightarrow> length (reds sf) = 15) \<and>
           (\<forall>i j. i < j \<and> j < length (allOf (reds sf) (colours sf) (cueBall sf)) \<longrightarrow>
              apart (heap sf) (ballR (tbl sf) * 2.05)
                (allOf (reds sf) (colours sf) (cueBall sf) ! i)
                (allOf (reds sf) (colours sf) (cueBall sf) ! j))"
proof -
  from layout_produced [OF assms] obtain l s' sf where
    r: "setMode nextMode s = Some sf"
      "layoutAcc (tbl s) [nextAddr s..<nextAddr s + 6] (rnd s) (l, s')"
      "heap sf = heap s'" "nextAddr sf = nextAddr s'" "reds sf = l"
      "colours sf = [nextAddr s..<nextAddr s + 6]" "cueBall sf = None" "tbl sf = tbl s"
      "nextMode = 1 \<longrightarrow> length l = 15"
    by blast
  have "apart (heap sf) (ballR (tbl sf) * 2.05)
                (allOf (reds sf) (colours sf) (cueBall sf) ! i)
                (allOf (reds sf) (colours sf) (cueBall sf) ! j)"
    if "i < j" "j < length (allOf (reds sf) (colours sf) (cueBall sf))" for i j
    by (rule layoutAcc_result [OF r(2) r(3-8) that])
  then show ?thesis
    using r by auto
qed

text \<open>
  The three modes on the 1196 x 720 table, with a random generator that always returns
  1/2.
\<close>

theorem C7_separation_witness:
  "(\<exists>sf. setMode 1 initialState = Some sf \<and>
           cueBall sf = None \<and> length (colours sf) = 6 \<and> length (reds sf) = 15 \<and>
           (\<forall>i j. i < j \<and> j < length (allOf (reds sf) (colours sf) (cueBall sf)) \<longrightarrow>
              apart (heap sf) (ballR (tbl sf) * 2.05)
                (allOf (reds sf) (colours sf) (cueBall sf) ! i)
                (allOf (reds sf) (colours sf) (cueBall sf) ! j))) \<and>
   (\<exists>sf. setMode 2 initialState = Some sf \<and> length (colours sf) = 6) \<and>
   (\<exists>sf. setMode 3 initialState = Some sf \<and> length (colours sf) = 6)"
  using C7_separation [of initialState 1196 720 1] C7_separation [of initialState 1196 720 2]
    C7_separation [of initialState 1196 720 3]
  by (simp add: initialState_def) blast

end
